theory Spec2Isabelle
  imports Main
begin

section \<open>Constants and brick shapes (src/main.ts, lines 4-104)\<close>

abbreviation GRID_WIDTH :: nat where "GRID_WIDTH \<equiv> 10"
abbreviation GRID_HEIGHT :: nat where "GRID_HEIGHT \<equiv> 20"
abbreviation QUEUE_SIZE :: nat where "QUEUE_SIZE \<equiv> 4"
abbreviation ROW_ANIMATION_FRAMES :: int where "ROW_ANIMATION_FRAMES \<equiv> 6"
abbreviation POINTS_PER_ROW :: int where "POINTS_PER_ROW \<equiv> 100"

text \<open>
  The enum \<open>BrickType\<close>. The constructors carry a prefix because \<open>O\<close> is the
  infix of relation composition and single capitals are wanted as variables.
\<close>

datatype BrickType = Brick_I | Brick_L | Brick_J | Brick_O | Brick_S | Brick_Z | Brick_T

text \<open>
  A position, the score and the frame counter are JavaScript numbers: IEEE doubles. The
  program starts from integers and \<open>UNSPAWNED_POS = -Infinity\<close> and only adds, so the
  values it can hold are integers, the two infinities and \<open>NaN\<close>
  (\<open>-Infinity + Infinity\<close>). \<open>Fin n\<close> is the double of the integer value \<open>n\<close>.
\<close>

datatype jsnum = NegInf | Fin int | PosInf | NaN

abbreviation UNSPAWNED_POS :: jsnum where "UNSPAWNED_POS \<equiv> NegInf"

text \<open>\<open>2^53\<close>: every integer up to this magnitude is a double.\<close>

abbreviation two53 :: int where "two53 \<equiv> 9007199254740992"

text \<open>
  The distance between neighbouring doubles at the magnitude \<open>n\<close>: 1 below \<open>2^53\<close>,
  2 from \<open>2^53\<close> to \<open>2^54\<close>, doubled with every further bit.
\<close>

function spacing :: "nat \<Rightarrow> nat" where
  "spacing n = (if n < 9007199254740992 then 1 else 2 * spacing (n div 2))"
  by pat_completeness auto
termination
  by (relation "measure id") auto

declare spacing.simps [simp del]

text \<open>
  The double that an integer sum \<open>v\<close> is rounded to (round to nearest, ties to the
  even mantissa): \<open>v\<close> itself up to \<open>2^53\<close>; beyond, the nearer of the two multiples of
  the spacing around \<open>v\<close>; an infinity when that is \<open>2^1024\<close> or more.
\<close>

definition nearest_double :: "int \<Rightarrow> jsnum" where
  "nearest_double v =
     (if \<bar>v\<bar> \<le> two53 then Fin v
      else
        (let q = int (spacing (nat \<bar>v\<bar>));
             m = \<bar>v\<bar> div q;
             r = \<bar>v\<bar> mod q;
             m' = (if 2 * r < q \<or> (2 * r = q \<and> even m) then m else m + 1);
             w = m' * q
         in if 2 ^ 1024 \<le> w then (if v < 0 then NegInf else PosInf)
            else Fin (if v < 0 then - w else w)))"

text \<open>\<open>a + k\<close> for an integer \<open>k\<close>; \<open>a++\<close> is \<open>plus_js a 1\<close>, \<open>a--\<close> is \<open>plus_js a (- 1)\<close>.\<close>

fun plus_js :: "jsnum \<Rightarrow> int \<Rightarrow> jsnum" where
  "plus_js NegInf k = NegInf"
| "plus_js (Fin a) k = nearest_double (a + k)"
| "plus_js PosInf k = PosInf"
| "plus_js NaN k = NaN"

text \<open>\<open>a + b\<close> for two numbers.\<close>

definition add_js :: "jsnum \<Rightarrow> jsnum \<Rightarrow> jsnum" where
  "add_js a b =
     (case b of
        Fin k \<Rightarrow> plus_js a k
      | NegInf \<Rightarrow> (case a of PosInf \<Rightarrow> NaN | NaN \<Rightarrow> NaN | _ \<Rightarrow> NegInf)
      | PosInf \<Rightarrow> (case a of NegInf \<Rightarrow> NaN | NaN \<Rightarrow> NaN | _ \<Rightarrow> PosInf)
      | NaN \<Rightarrow> NaN)"

text \<open>\<open>a < k\<close> for an integer \<open>k\<close>.\<close>

fun less_js :: "jsnum \<Rightarrow> int \<Rightarrow> bool" where
  "less_js NegInf k = True"
| "less_js (Fin a) k = (a < k)"
| "less_js PosInf k = False"
| "less_js NaN k = False"

text \<open>
  Reading \<open>xs[i]\<close>: an index that is not one of \<open>0 .. length - 1\<close> yields
  \<open>undefined\<close>, here \<open>None\<close>.
\<close>

fun index_js :: "'a list \<Rightarrow> jsnum \<Rightarrow> 'a option" where
  "index_js xs (Fin i) = (if 0 \<le> i \<and> i < int (length xs) then Some (xs ! nat i) else None)"
| "index_js xs NegInf = None"
| "index_js xs PosInf = None"
| "index_js xs NaN = None"

type_synonym Bit = nat

type_synonym BrickShape = "Bit list list"

fun brickTypeToShapeMap :: "BrickType \<Rightarrow> BrickShape" where
  "brickTypeToShapeMap Brick_I =
     [[0, 0, 0, 0],
      [1, 1, 1, 1],
      [0, 0, 0, 0],
      [0, 0, 0, 0]]"
| "brickTypeToShapeMap Brick_L =
     [[1, 0, 0],
      [1, 1, 1],
      [0, 0, 0]]"
| "brickTypeToShapeMap Brick_J =
     [[0, 0, 1],
      [1, 1, 1],
      [0, 0, 0]]"
| "brickTypeToShapeMap Brick_O =
     [[1, 1],
      [1, 1]]"
| "brickTypeToShapeMap Brick_S =
     [[0, 1, 1],
      [1, 1, 0],
      [0, 0, 0]]"
| "brickTypeToShapeMap Brick_Z =
     [[1, 1, 0],
      [0, 1, 1],
      [0, 0, 0]]"
| "brickTypeToShapeMap Brick_T =
     [[0, 1, 0],
      [1, 1, 1],
      [0, 0, 0]]"

definition shapeSize :: "BrickShape \<Rightarrow> nat" where
  "shapeSize b = length b"

text \<open>
  \<open>b[y][x]\<close> for \<open>y < b.length\<close>. Every shape of the program is square, so the read
  is in range; on a ragged shape JavaScript yields \<open>undefined\<close>, which is falsy and is
  rendered as the falsy bit \<open>0\<close>.
\<close>

definition bitAt :: "BrickShape \<Rightarrow> nat \<Rightarrow> nat \<Rightarrow> Bit" where
  "bitAt b y x = (if y < length b \<and> x < length (b ! y) then b ! y ! x else 0)"

text \<open>\<open>b[y].every(x => !x)\<close>; the callers keep \<open>y < shapeSize b\<close>.\<close>

definition isEmptyBitGridRow :: "BrickShape \<Rightarrow> nat \<Rightarrow> bool" where
  "isEmptyBitGridRow b y = list_all (\<lambda>v. v = 0) (b ! y)"

definition copyBrickShape :: "BrickShape \<Rightarrow> BrickShape" where
  "copyBrickShape b =
     (let sz = shapeSize b
      in map (\<lambda>y. map (\<lambda>x. bitAt b y x) [0..<sz]) [0..<sz])"

section \<open>Orientations, wall kicks and rotation (lines 106-163)\<close>

datatype Orientation = SPAWN | RIGHT | TWO | LEFT

fun orientationNum :: "Orientation \<Rightarrow> nat" where
  "orientationNum SPAWN = 0"
| "orientationNum RIGHT = 1"
| "orientationNum TWO = 2"
| "orientationNum LEFT = 3"

text \<open>\<open>(o + 1) % 4\<close> read back as an \<open>Orientation\<close>.\<close>

fun incrementOrientation :: "Orientation \<Rightarrow> Orientation" where
  "incrementOrientation SPAWN = RIGHT"
| "incrementOrientation RIGHT = TWO"
| "incrementOrientation TWO = LEFT"
| "incrementOrientation LEFT = SPAWN"

type_synonym NumPair = "int \<times> int"

type_synonym WallKickList = "NumPair list"

fun jlstzOrientationToWallKickMap :: "Orientation \<Rightarrow> WallKickList" where
  "jlstzOrientationToWallKickMap SPAWN = [(0, 0), (-1, 0), (-1, 1), (0, -2), (-1, -2)]"
| "jlstzOrientationToWallKickMap RIGHT = [(0, 0), (1, 0), (1, -1), (0, 2), (1, 2)]"
| "jlstzOrientationToWallKickMap TWO = [(0, 0), (1, 0), (1, 1), (0, -2), (1, -2)]"
| "jlstzOrientationToWallKickMap LEFT = [(0, 0), (-1, 0), (-1, -1), (0, 2), (-1, 2)]"

fun iOrientationToWallKickMap :: "Orientation \<Rightarrow> WallKickList" where
  "iOrientationToWallKickMap SPAWN = [(0, 0), (-2, 0), (1, 0), (-2, -1), (1, 2)]"
| "iOrientationToWallKickMap RIGHT = [(0, 0), (-1, 0), (2, 0), (-1, 2), (2, -1)]"
| "iOrientationToWallKickMap TWO = [(0, 0), (2, 0), (-1, 0), (2, 1), (-1, -2)]"
| "iOrientationToWallKickMap LEFT = [(0, 0), (1, 0), (-2, 0), (1, -2), (-2, 1)]"

text \<open>
  One pass of the two inner loops of \<open>rotateShape\<close>:
  \<open>cur[x][size - 1 - y] = prev[y][x]\<close> for \<open>x\<close>, then \<open>y\<close>, from \<open>0\<close> to \<open>size - 1\<close>.
\<close>

definition rotateOnce :: "nat \<Rightarrow> BrickShape \<Rightarrow> BrickShape \<Rightarrow> BrickShape" where
  "rotateOnce sz cur prev =
     fold (\<lambda>x c. fold (\<lambda>y c'. c'[x := (c' ! x)[sz - 1 - y := bitAt prev y x]]) [0..<sz] c)
       [0..<sz] cur"

text \<open>The outer loop, \<open>n\<close> passes left; \<open>prev = copyBrickShape(cur)\<close> after each pass.\<close>

fun rotateLoop :: "nat \<Rightarrow> nat \<Rightarrow> BrickShape \<Rightarrow> BrickShape \<Rightarrow> BrickShape" where
  "rotateLoop 0 sz cur prev = cur"
| "rotateLoop (Suc n) sz cur prev =
     (let cur' = rotateOnce sz cur prev
      in rotateLoop n sz cur' (copyBrickShape cur'))"

definition rotateShape :: "BrickShape \<Rightarrow> Orientation \<Rightarrow> BrickShape" where
  "rotateShape prev orientation =
     rotateLoop (orientationNum orientation) (shapeSize prev) (copyBrickShape prev) prev"

section \<open>The grid of static bricks (lines 165-223)\<close>

text \<open>
  \<open>Cell = BrickType | EmptyCell\<close>. \<open>Hole\<close> is the missing element that JavaScript
  leaves in a row when a write lands beyond the row's end: reading it yields
  \<open>undefined\<close> and \<open>every\<close> skips it.
\<close>

datatype Cell = emptyCell | Filled BrickType | Hole

type_synonym Grid = "Cell list list"

text \<open>\<open>grid[y] === undefined || grid[y][x] === emptyCell\<close>\<close>

definition isEmptyCell :: "Grid \<Rightarrow> jsnum \<Rightarrow> jsnum \<Rightarrow> bool" where
  "isEmptyCell grid x y =
     (case index_js grid y of
        None \<Rightarrow> True
      | Some row \<Rightarrow> index_js row x = Some emptyCell)"

text \<open>The two nested loops of \<open>collision\<close> return \<open>true\<close> at the first hit.\<close>

definition collision :: "Grid \<Rightarrow> BrickShape \<Rightarrow> jsnum \<Rightarrow> jsnum \<Rightarrow> bool" where
  "collision grid shape x0 y0 =
     (let sz = shapeSize shape
      in list_ex (\<lambda>y. list_ex (\<lambda>x. bitAt shape y x \<noteq> 0
                    \<and> \<not> isEmptyCell grid (plus_js x0 (int x)) (plus_js y0 (int y)))
                  [0..<sz])
           [0..<sz])"

definition emptyRow :: "nat \<Rightarrow> Cell list" where
  "emptyRow width = replicate width emptyCell"

definition emptyCells :: "nat \<Rightarrow> nat \<Rightarrow> Grid" where
  "emptyCells width height = replicate height (emptyRow width)"

definition isCompleteRow :: "Cell list \<Rightarrow> bool" where
  "isCompleteRow row = list_all (\<lambda>c. c \<noteq> emptyCell) row"

definition hasCompletedRow :: "Grid \<Rightarrow> bool" where
  "hasCompletedRow grid = list_ex isCompleteRow grid"

text \<open>The first loop of \<open>removeCompletedRowsFromGrid\<close>: push the rows that stay.\<close>

fun pushRemaining :: "Grid \<Rightarrow> Grid \<Rightarrow> Grid" where
  "pushRemaining [] remaining = remaining"
| "pushRemaining (row # rows) remaining =
     pushRemaining rows (if \<not> isCompleteRow row then remaining @ [row] else remaining)"

text \<open>The second loop: \<open>n\<close> fresh empty rows are pushed.\<close>

fun pushEmptyRows :: "nat \<Rightarrow> Grid \<Rightarrow> Grid" where
  "pushEmptyRows 0 newGrid = newGrid"
| "pushEmptyRows (Suc n) newGrid = pushEmptyRows n (newGrid @ [emptyRow GRID_WIDTH])"

text \<open>The third loop: the remaining rows are pushed in order.\<close>

fun pushRows :: "Grid \<Rightarrow> Grid \<Rightarrow> Grid" where
  "pushRows [] newGrid = newGrid"
| "pushRows (row # rows) newGrid = pushRows rows (newGrid @ [row])"

text \<open>
  \<open>i < GRID_HEIGHT - remaining.length\<close> holds for no \<open>i \<ge> 0\<close> when the difference is
  negative, as the truncating difference of naturals has it.
\<close>

definition removeCompletedRowsFromGrid :: "Grid \<Rightarrow> Grid" where
  "removeCompletedRowsFromGrid grid =
     (let remaining = pushRemaining grid [];
          newGrid = pushEmptyRows (GRID_HEIGHT - length remaining) []
      in pushRows remaining newGrid)"

section \<open>The falling brick (lines 225-360)\<close>

record FallingBrick =
  fb_type :: BrickType
  fb_x :: jsnum
  fb_y :: jsnum
  fb_orientation :: Orientation

text \<open>\<open>new FallingBrick(type)\<close>\<close>

definition newFallingBrick :: "BrickType \<Rightarrow> FallingBrick" where
  "newFallingBrick t =
     \<lparr>fb_type = t, fb_x = UNSPAWNED_POS, fb_y = UNSPAWNED_POS, fb_orientation = SPAWN\<rparr>"

definition isUnspawned :: "FallingBrick \<Rightarrow> bool" where
  "isUnspawned fb = (fb_x fb = UNSPAWNED_POS)"

definition shape :: "FallingBrick \<Rightarrow> BrickShape" where
  "shape fb =
     (let shp = brickTypeToShapeMap (fb_type fb)
      in if isUnspawned fb \<or> fb_type fb = Brick_O then shp
         else rotateShape shp (fb_orientation fb))"

text \<open>\<open>Math.floor((GRID_WIDTH - size) / 2)\<close> is the flooring \<open>div\<close> of the integers.\<close>

definition spawn :: "FallingBrick \<Rightarrow> FallingBrick" where
  "spawn fb =
     (let sz = shapeSize (shape fb)
      in fb\<lparr>fb_x := Fin ((int GRID_WIDTH - int sz) div 2), fb_y := Fin (- int sz)\<rparr>)"

text \<open>
  The loop of \<open>isTouchingFloor\<close> runs \<open>y\<close> from \<open>size - 1\<close> down to \<open>0\<close>, skips the
  empty rows and returns \<open>true\<close> at the first row with \<open>this.y + y + 1 === GRID_HEIGHT\<close>,
  which is \<open>(this.y + y) + 1\<close>.
\<close>

definition isTouchingFloor :: "FallingBrick \<Rightarrow> bool" where
  "isTouchingFloor fb =
     (let shp = shape fb; sz = shapeSize shp
      in list_ex (\<lambda>y. \<not> isEmptyBitGridRow shp y
                    \<and> plus_js (plus_js (fb_y fb) (int y)) 1 = Fin (int GRID_HEIGHT))
           (rev [0..<sz]))"

definition isOnTopOfBricks :: "FallingBrick \<Rightarrow> Grid \<Rightarrow> bool" where
  "isOnTopOfBricks fb grid = collision grid (shape fb) (fb_x fb) (plus_js (fb_y fb) 1)"

definition canFall :: "FallingBrick \<Rightarrow> Grid \<Rightarrow> bool" where
  "canFall fb grid = (\<not> isTouchingFloor fb \<and> \<not> isOnTopOfBricks fb grid)"

text \<open>The returned flag is true when the brick can no longer fall.\<close>

definition tickGravity :: "FallingBrick \<Rightarrow> Grid \<Rightarrow> bool \<times> FallingBrick" where
  "tickGravity fb grid =
     (if \<not> canFall fb grid then (True, fb)
      else (False, fb\<lparr>fb_y := plus_js (fb_y fb) 1\<rparr>))"

text \<open>The method \<open>FallingBrick.gameOver\<close>; \<open>gameOver\<close> below is the one on states.\<close>

definition FallingBrick_gameOver :: "FallingBrick \<Rightarrow> Grid \<Rightarrow> bool" where
  "FallingBrick_gameOver fb grid = (isOnTopOfBricks fb grid \<and> less_js (fb_y fb) 0)"

text \<open>The loop of \<open>rotate\<close> over the five pairs of the wall kick list.\<close>

fun tryWallKicks ::
  "FallingBrick \<Rightarrow> Grid \<Rightarrow> Orientation \<Rightarrow> BrickShape \<Rightarrow> WallKickList \<Rightarrow> FallingBrick" where
  "tryWallKicks fb grid nextOrientation nextShape [] = fb"
| "tryWallKicks fb grid nextOrientation nextShape ((dx, dy) # pairs) =
     (if \<not> collision grid nextShape (plus_js (fb_x fb) dx) (plus_js (fb_y fb) dy)
      then fb\<lparr>fb_orientation := nextOrientation,
              fb_x := plus_js (fb_x fb) dx,
              fb_y := plus_js (fb_y fb) dy\<rparr>
      else tryWallKicks fb grid nextOrientation nextShape pairs)"

text \<open>The method \<open>FallingBrick.rotate\<close> (\<open>rotate\<close> is a list function of HOL).\<close>

definition rotate_brick :: "FallingBrick \<Rightarrow> Grid \<Rightarrow> FallingBrick" where
  "rotate_brick fb grid =
     (if isUnspawned fb then fb
      else if fb_type fb = Brick_O then fb
      else
        (let nextOrientation = incrementOrientation (fb_orientation fb);
             nextShape = rotateShape (shape fb) nextOrientation;
             orientationToWallkickMap =
               (if fb_type fb = Brick_I then iOrientationToWallKickMap
                else jlstzOrientationToWallKickMap)
         in tryWallKicks fb grid nextOrientation nextShape
              (orientationToWallkickMap (fb_orientation fb))))"

definition isAgainstWall :: "FallingBrick \<Rightarrow> bool \<Rightarrow> bool" where
  "isAgainstWall fb left =
     (let shp = shape fb; sz = shapeSize shp;
          bound = (if left then 0 else int GRID_WIDTH - 1)
      in list_ex (\<lambda>y. list_ex (\<lambda>x. bitAt shp y x \<noteq> 0 \<and> plus_js (fb_x fb) (int x) = Fin bound)
                  [0..<sz])
           [0..<sz])"

definition canMove :: "FallingBrick \<Rightarrow> Grid \<Rightarrow> bool \<Rightarrow> bool" where
  "canMove fb grid left =
     (let shp = shape fb
      in \<not> collision grid shp (plus_js (fb_x fb) (if left then - 1 else 1)) (fb_y fb)
         \<and> \<not> isAgainstWall fb left)"

definition canMoveLeft :: "FallingBrick \<Rightarrow> Grid \<Rightarrow> bool" where
  "canMoveLeft fb grid = canMove fb grid True"

definition canMoveRight :: "FallingBrick \<Rightarrow> Grid \<Rightarrow> bool" where
  "canMoveRight fb grid = canMove fb grid False"

definition moveLeft :: "FallingBrick \<Rightarrow> Grid \<Rightarrow> FallingBrick" where
  "moveLeft fb grid =
     (if isUnspawned fb \<or> \<not> canMoveLeft fb grid then fb
      else fb\<lparr>fb_x := plus_js (fb_x fb) (- 1)\<rparr>)"

definition moveRight :: "FallingBrick \<Rightarrow> Grid \<Rightarrow> FallingBrick" where
  "moveRight fb grid =
     (if isUnspawned fb \<or> \<not> canMoveRight fb grid then fb
      else fb\<lparr>fb_x := plus_js (fb_x fb) 1\<rparr>)"

text \<open>
  \<open>while (this.canFall(grid)) this.y++\<close>. Nothing bounds the loop, so it is a partial
  function: \<open>None\<close> is the loop that never ends.
\<close>

partial_function (option) fastFallLoop :: "FallingBrick \<Rightarrow> Grid \<Rightarrow> FallingBrick option" where
  "fastFallLoop fb grid =
     (if canFall fb grid then fastFallLoop (fb\<lparr>fb_y := plus_js (fb_y fb) 1\<rparr>) grid
      else Some fb)"

declare fastFallLoop.simps [code]

definition fastFall :: "FallingBrick \<Rightarrow> Grid \<Rightarrow> FallingBrick option" where
  "fastFall fb grid = (if isUnspawned fb then Some fb else fastFallLoop fb grid)"

section \<open>The game state and the reducer (lines 362-470, 714-734)\<close>

datatype GamePhase = UNSTARTED | IN_PROGRESS | OVER

type_synonym Queue = "BrickType list"

record State =
  phase :: GamePhase
  bricks :: Grid
  score :: jsnum
  fallingBrick :: FallingBrick
  queue :: Queue
  completedRowAnimationFrame :: "jsnum option"

text \<open>
  \<open>randomBrickType()\<close> is the program's only source of chance. A function that draws
  takes the outcomes of its calls as \<open>rnd 0\<close>, \<open>rnd 1\<close>, ... in the order of the calls.
\<close>

type_synonym Random = "nat \<Rightarrow> BrickType"

definition initialState :: "Random \<Rightarrow> State" where
  "initialState rnd =
     \<lparr>phase = UNSTARTED,
      bricks = emptyCells GRID_WIDTH GRID_HEIGHT,
      score = Fin 0,
      fallingBrick = newFallingBrick (rnd 0),
      queue = map (\<lambda>i. rnd (Suc i)) [0..<QUEUE_SIZE],
      completedRowAnimationFrame = None\<rparr>"

text \<open>
  The ways a call can end without a state of the type \<open>State\<close>. \<open>TypeError\<close> is thrown:
  \<open>bricks[row][col] = type\<close> throws it when \<open>bricks[row]\<close> is \<open>undefined\<close>.
  \<open>UndefinedBrickType\<close> is not thrown: it marks the one place where the program leaves
  its own types, \<open>new FallingBrick(queue[0])\<close> on an empty queue. The program goes on
  there, with a brick whose type is \<open>undefined\<close> and the queue \<open>[r]\<close>; \<open>BrickType\<close> has
  no such value, so the model ends there. A queue is never empty in a state that the
  game emits (\<open>reachable_queue_length\<close> below).
\<close>

datatype error = TypeError | UndefinedBrickType

text \<open>
  \<open>row[col] = v\<close> on a JavaScript array: a column inside the row is overwritten;
  a column at or beyond the end extends the row, leaving holes between; a negative
  column, an infinity or \<open>NaN\<close> sets a property that is no element, which no read of
  the program can tell from the \<open>undefined\<close> it saw there before.
\<close>

fun assign_js :: "Cell list \<Rightarrow> jsnum \<Rightarrow> Cell \<Rightarrow> Cell list" where
  "assign_js row (Fin i) v =
     (if i < 0 then row
      else if i < int (length row) then row[nat i := v]
      else row @ replicate (nat i - length row) Hole @ [v])"
| "assign_js row NegInf v = row"
| "assign_js row PosInf v = row"
| "assign_js row NaN v = row"

text \<open>\<open>bricks[gy][gx] = v\<close>\<close>

definition writeCell :: "Grid \<Rightarrow> jsnum \<Rightarrow> jsnum \<Rightarrow> Cell \<Rightarrow> error + Grid" where
  "writeCell grid gy gx v =
     (case index_js grid gy of
        None \<Rightarrow> Inl TypeError
      | Some row \<Rightarrow> Inr (grid[(case gy of Fin i \<Rightarrow> nat i | _ \<Rightarrow> 0) := assign_js row gx v]))"

text \<open>
  The shape cells that \<open>writeFallingBrickToGrid\<close> writes, as (row, column) in the order
  of its two loops: the rows that are not empty, and in them the set bits.
\<close>

definition cellsToWrite :: "BrickShape \<Rightarrow> (nat \<times> nat) list" where
  "cellsToWrite shp =
     (let sz = shapeSize shp
      in concat (map (\<lambda>y. if list_all (\<lambda>v. v = 0) (shp ! y) then []
                          else map (\<lambda>x. (y, x)) (filter (\<lambda>x. bitAt shp y x \<noteq> 0) [0..<sz]))
                   [0..<sz]))"

fun writeCells :: "FallingBrick \<Rightarrow> (nat \<times> nat) list \<Rightarrow> Grid \<Rightarrow> error + Grid" where
  "writeCells fb [] grid = Inr grid"
| "writeCells fb ((y, x) # cells) grid =
     (case writeCell grid (plus_js (fb_y fb) (int y)) (plus_js (fb_x fb) (int x))
             (Filled (fb_type fb)) of
        Inl e \<Rightarrow> Inl e
      | Inr grid' \<Rightarrow> writeCells fb cells grid')"

definition writeFallingBrickToGrid :: "State \<Rightarrow> error + State" where
  "writeFallingBrickToGrid state =
     (case writeCells (fallingBrick state) (cellsToWrite (shape (fallingBrick state)))
             (bricks state) of
        Inl e \<Rightarrow> Inl e
      | Inr grid' \<Rightarrow> Inr (state\<lparr>bricks := grid'\<rparr>))"

definition gameOver :: "State \<Rightarrow> State" where
  "gameOver state = state\<lparr>phase := OVER\<rparr>"

text \<open>
  \<open>r\<close> is the outcome of the call of \<open>randomBrickType()\<close>. \<open>slice(1, QUEUE_SIZE)\<close> keeps
  the elements at the indices 1, 2 and 3 that exist. On an empty queue \<open>queue[0]\<close> is
  \<open>undefined\<close>: see \<open>UndefinedBrickType\<close> above.
\<close>

definition dequeueNextBrick :: "State \<Rightarrow> BrickType \<Rightarrow> error + State" where
  "dequeueNextBrick state r =
     (case queue state of
        [] \<Rightarrow> Inl UndefinedBrickType
      | front # _ \<Rightarrow>
          Inr (state\<lparr>queue := take (QUEUE_SIZE - 1) (drop 1 (queue state)) @ [r],
                     fallingBrick := newFallingBrick front\<rparr>))"

definition isRowAnimating :: "State \<Rightarrow> bool" where
  "isRowAnimating state = (completedRowAnimationFrame state \<noteq> None)"

definition nextFrame :: "jsnum \<Rightarrow> jsnum option" where
  "nextFrame x = (if x = Fin ROW_ANIMATION_FRAMES then None else Some (plus_js x 1))"

definition tickCompletedRowAnimation :: "State \<Rightarrow> State" where
  "tickCompletedRowAnimation state =
     state\<lparr>completedRowAnimationFrame :=
       (case completedRowAnimationFrame state of
          Some x \<Rightarrow> nextFrame x
        | None \<Rightarrow> Some (Fin 0))\<rparr>"

definition removeCompletedRows :: "State \<Rightarrow> State" where
  "removeCompletedRows state = state\<lparr>bricks := removeCompletedRowsFromGrid (bricks state)\<rparr>"

fun countPoints :: "Grid \<Rightarrow> jsnum \<Rightarrow> jsnum" where
  "countPoints [] points = points"
| "countPoints (row # rows) points =
     countPoints rows (if isCompleteRow row then plus_js points POINTS_PER_ROW else points)"

definition awardPoints :: "State \<Rightarrow> State" where
  "awardPoints state =
     state\<lparr>score := add_js (score state) (countPoints (bricks state) (Fin 0))\<rparr>"

text \<open>\<open>tickClock\<close>; its one draw, \<open>rnd 0\<close>, is made by \<open>dequeueNextBrick\<close>.\<close>

definition tickClock :: "State \<Rightarrow> Random \<Rightarrow> error + State" where
  "tickClock state rnd =
     (if phase state \<noteq> IN_PROGRESS then Inr state
      else if isRowAnimating state then
        (let state' = tickCompletedRowAnimation state
         in if isRowAnimating state' then Inr state'
            else Inr (removeCompletedRows state'))
      else
        (let fb = (if isUnspawned (fallingBrick state) then spawn (fallingBrick state)
                   else fallingBrick state);
             (landed, fb') = tickGravity fb (bricks state);
             state1 = state\<lparr>fallingBrick := fb'\<rparr>
         in if landed then
              (if FallingBrick_gameOver fb' (bricks state1) then Inr (gameOver state1)
               else
                 (case writeFallingBrickToGrid state1 of
                    Inl e \<Rightarrow> Inl e
                  | Inr state2 \<Rightarrow>
                      (case dequeueNextBrick state2 (rnd 0) of
                         Inl e \<Rightarrow> Inl e
                       | Inr state3 \<Rightarrow>
                           if \<not> hasCompletedRow (bricks state3) then Inr state3
                           else Inr (awardPoints (tickCompletedRowAnimation state3)))))
            else Inr state1))"

text \<open>
  The actions. \<open>LEFT\<close> and \<open>RIGHT\<close> are orientations too, so the two key actions carry
  a prefix.
\<close>

datatype Action = TICK_CLOCK | START_GAME | DOWN | Action_LEFT | Action_RIGHT | UP

text \<open>
  The reducer. \<open>None\<close>: the call never returns (the loop of \<open>fastFall\<close>);
  \<open>Some (Inl e)\<close>: it throws; \<open>Some (Inr s)\<close>: it returns \<open>s\<close>.
\<close>

definition handleActions :: "State \<Rightarrow> Action \<Rightarrow> Random \<Rightarrow> (error + State) option" where
  "handleActions state action rnd =
     (case action of
        TICK_CLOCK \<Rightarrow> Some (tickClock state rnd)
      | START_GAME \<Rightarrow> Some (Inr ((initialState rnd)\<lparr>phase := IN_PROGRESS\<rparr>))
      | Action_LEFT \<Rightarrow>
          Some (Inr (state\<lparr>fallingBrick := moveLeft (fallingBrick state) (bricks state)\<rparr>))
      | Action_RIGHT \<Rightarrow>
          Some (Inr (state\<lparr>fallingBrick := moveRight (fallingBrick state) (bricks state)\<rparr>))
      | UP \<Rightarrow>
          Some (Inr (state\<lparr>fallingBrick := rotate_brick (fallingBrick state) (bricks state)\<rparr>))
      | DOWN \<Rightarrow>
          (case fastFall (fallingBrick state) (bricks state) of
             None \<Rightarrow> None
           | Some fb' \<Rightarrow> Some (Inr (state\<lparr>fallingBrick := fb'\<rparr>))))"

text \<open>
  The fold of \<open>scan(handleActions, initialState())\<close> over a sequence of actions, each with
  the outcomes of its draws; it stops where a call throws or does not return.
\<close>

fun runActions :: "State \<Rightarrow> (Action \<times> Random) list \<Rightarrow> (error + State) option" where
  "runActions state [] = Some (Inr state)"
| "runActions state ((action, rnd) # rest) =
     (case handleActions state action rnd of
        Some (Inr state') \<Rightarrow> runActions state' rest
      | other \<Rightarrow> other)"

text \<open>The states that the game can emit.\<close>

inductive reachable :: "State \<Rightarrow> bool" where
  reachable_initial: "reachable (initialState rnd)"
| reachable_step:
    "reachable state \<Longrightarrow> handleActions state action rnd = Some (Inr state')
       \<Longrightarrow> reachable state'"


section \<open>The branch of the clock tick that locks the brick in\<close>

text \<open>The brick that \<open>tickClock\<close> applies gravity to: spawned first when it was not.\<close>

definition brickToTick :: "State \<Rightarrow> FallingBrick" where
  "brickToTick state =
     (if isUnspawned (fallingBrick state) then spawn (fallingBrick state)
      else fallingBrick state)"

text \<open>
  The condition under which \<open>tickClock\<close> reaches \<open>writeFallingBrickToGrid\<close>: the game is
  in progress, no row animation runs, the brick has landed and the game is not over.
\<close>

definition locksIn :: "State \<Rightarrow> bool" where
  "locksIn state =
     (phase state = IN_PROGRESS \<and> \<not> isRowAnimating state
      \<and> \<not> canFall (brickToTick state) (bricks state)
      \<and> \<not> FallingBrick_gameOver (brickToTick state) (bricks state))"

section \<open>Bounds on numbers\<close>

text \<open>A number that is an integer not below \<open>c\<close>, or \<open>Infinity\<close>.\<close>

definition at_least :: "int \<Rightarrow> jsnum \<Rightarrow> bool" where
  "at_least c v = (case v of Fin w \<Rightarrow> c \<le> w | PosInf \<Rightarrow> True | _ \<Rightarrow> False)"

text \<open>A number that is an integer not above \<open>c\<close>, or \<open>-Infinity\<close>.\<close>

definition at_most :: "int \<Rightarrow> jsnum \<Rightarrow> bool" where
  "at_most c v = (case v of Fin w \<Rightarrow> w \<le> c | NegInf \<Rightarrow> True | _ \<Rightarrow> False)"

section \<open>Falling by single steps\<close>

text \<open>The value of \<open>y\<close> after \<open>n\<close> executions of \<open>this.y++\<close>.\<close>

definition fallBy :: "nat \<Rightarrow> jsnum \<Rightarrow> jsnum" where
  "fallBy n v = ((\<lambda>w. plus_js w 1) ^^ n) v"


section \<open>Example inputs\<close>

text \<open>A board of 20 rows of which the rows 17 and 19 are complete.\<close>

definition exampleGrid :: Grid where
  "exampleGrid = replicate 17 (emptyRow 10) @
     [replicate 10 (Filled Brick_I),
      [Filled Brick_L, emptyCell, emptyCell, emptyCell, emptyCell,
       emptyCell, emptyCell, emptyCell, emptyCell, emptyCell],
      replicate 10 (Filled Brick_O)]"

text \<open>A source of chance that always draws the same type.\<close>

definition always :: "BrickType \<Rightarrow> Random" where
  "always t = (\<lambda>n. t)"

text \<open>A state whose brick, an \<open>O\<close>, stands on the floor of the empty board.\<close>

definition landedState :: State where
  "landedState =
     \<lparr>phase = IN_PROGRESS,
      bricks = emptyCells GRID_WIDTH GRID_HEIGHT,
      score = Fin 0,
      fallingBrick = \<lparr>fb_type = Brick_O, fb_x = Fin 4, fb_y = Fin 18, fb_orientation = SPAWN\<rparr>,
      queue = [Brick_S, Brick_Z, Brick_J, Brick_I],
      completedRowAnimationFrame = None\<rparr>"

text \<open>
  A board whose column 3 is filled from row 1 down, and the \<open>I\<close> brick lying in row 0
  above it: its bounding box begins at row \<open>-1\<close>, its four cells are in row 0.
\<close>

definition towerGrid :: Grid where
  "towerGrid = emptyRow 10 # replicate 19 ((emptyRow 10)[3 := Filled Brick_I])"

definition lyingBrick :: FallingBrick where
  "lyingBrick = \<lparr>fb_type = Brick_I, fb_x = Fin 3, fb_y = Fin (- 1), fb_orientation = SPAWN\<rparr>"

text \<open>An \<open>O\<close> brick at the top of the example board, in a game in progress.\<close>

definition droppingBrick :: FallingBrick where
  "droppingBrick = \<lparr>fb_type = Brick_O, fb_x = Fin 4, fb_y = Fin 0, fb_orientation = SPAWN\<rparr>"

definition droppingState :: State where
  "droppingState =
     \<lparr>phase = IN_PROGRESS,
      bricks = exampleGrid,
      score = Fin 0,
      fallingBrick = droppingBrick,
      queue = [Brick_S, Brick_Z, Brick_J, Brick_I],
      completedRowAnimationFrame = None\<rparr>"

text \<open>A source of chance whose first draw is \<open>t\<close> and whose later draws are \<open>u\<close>.\<close>

definition firstThen :: "BrickType \<Rightarrow> BrickType \<Rightarrow> Random" where
  "firstThen t u = (\<lambda>n. if n = 0 then t else u)"

text \<open>
  A game that pushes a brick through the floor. The first brick, an \<open>O\<close>, is moved
  three columns to the left, dropped and locked in at the columns 1 and 2. The second,
  an \<open>L\<close>, is rotated once, moved to the left wall, dropped to the floor beside the
  \<open>O\<close> and rotated again: the fourth wall kick, two rows down, is the first one
  without a collision.
\<close>

definition stuckActions :: "(Action \<times> Random) list" where
  "stuckActions =
     [(START_GAME, firstThen Brick_O Brick_L),
      (TICK_CLOCK, always Brick_L),
      (Action_LEFT, always Brick_L), (Action_LEFT, always Brick_L), (Action_LEFT, always Brick_L),
      (DOWN, always Brick_L),
      (TICK_CLOCK, always Brick_L),
      (TICK_CLOCK, always Brick_L),
      (UP, always Brick_L),
      (Action_LEFT, always Brick_L), (Action_LEFT, always Brick_L),
      (Action_LEFT, always Brick_L), (Action_LEFT, always Brick_L),
      (DOWN, always Brick_L),
      (UP, always Brick_L)]"

text \<open>The state that game ends in: the \<open>L\<close> occupies the rows 20 and 21.\<close>

definition stuckState :: State where
  "stuckState =
     \<lparr>phase = IN_PROGRESS,
      bricks = replicate 18 (emptyRow 10) @
        replicate 2 ([emptyCell, Filled Brick_O, Filled Brick_O] @ replicate 7 emptyCell),
      score = Fin 0,
      fallingBrick = \<lparr>fb_type = Brick_L, fb_x = Fin (- 1), fb_y = Fin 19, fb_orientation = TWO\<rparr>,
      queue = [Brick_L, Brick_L, Brick_L, Brick_L],
      completedRowAnimationFrame = None\<rparr>"

text \<open>The state that \<open>START_GAME\<close> returns when every draw is an \<open>L\<close>.\<close>

definition startedState :: State where
  "startedState = (initialState (always Brick_L))\<lparr>phase := IN_PROGRESS\<rparr>"

text \<open>
  A game that ends: five \<open>I\<close> bricks are rotated upright and dropped onto each other in
  column 5; the \<open>O\<close> that follows lands on the tower while above the board.
\<close>

definition overActions :: "(Action \<times> Random) list" where
  "overActions =
     (START_GAME, always Brick_I) #
     concat (replicate 5
       [(TICK_CLOCK, always Brick_O), (UP, always Brick_O), (DOWN, always Brick_O),
        (TICK_CLOCK, always Brick_O)])
     @ [(TICK_CLOCK, always Brick_O)]"

text \<open>The state that game ends in.\<close>

definition overState :: State where
  "overState =
     \<lparr>phase = OVER,
      bricks = replicate 20 ((emptyRow 10)[5 := Filled Brick_I]),
      score = Fin 0,
      fallingBrick = \<lparr>fb_type = Brick_O, fb_x = Fin 4, fb_y = Fin (- 2), fb_orientation = SPAWN\<rparr>,
      queue = [Brick_O, Brick_O, Brick_O, Brick_O],
      completedRowAnimationFrame = None\<rparr>"

text \<open>
  A game that brings an \<open>L\<close> brick, turned three times to the orientation \<open>LEFT\<close>, to
  the right wall and down to the floor of the empty board.
\<close>

definition wallActions :: "(Action \<times> Random) list" where
  "wallActions =
     [(START_GAME, always Brick_L),
      (TICK_CLOCK, always Brick_L),
      (UP, always Brick_L), (UP, always Brick_L), (UP, always Brick_L),
      (Action_RIGHT, always Brick_L), (Action_RIGHT, always Brick_L), (Action_RIGHT, always Brick_L),
      (Action_RIGHT, always Brick_L), (Action_RIGHT, always Brick_L),
      (DOWN, always Brick_L)]"

definition wallState :: State where
  "wallState =
     \<lparr>phase = IN_PROGRESS,
      bricks = emptyCells GRID_WIDTH GRID_HEIGHT,
      score = Fin 0,
      fallingBrick = \<lparr>fb_type = Brick_L, fb_x = Fin 8, fb_y = Fin 17, fb_orientation = LEFT\<rparr>,
      queue = [Brick_L, Brick_L, Brick_L, Brick_L],
      completedRowAnimationFrame = None\<rparr>"

text \<open>
  A game that rotates a brick into a settled one. The first brick, an \<open>I\<close>, is turned
  upright and dropped into column 5. The second, an \<open>L\<close>, is turned three times to the
  orientation \<open>LEFT\<close>, dropped to the floor beside the \<open>I\<close> and turned once more.
\<close>

definition overlapActions :: "(Action \<times> Random) list" where
  "overlapActions =
     [(START_GAME, firstThen Brick_I Brick_L),
      (TICK_CLOCK, always Brick_L),
      (UP, always Brick_L),
      (DOWN, always Brick_L),
      (TICK_CLOCK, always Brick_L),
      (TICK_CLOCK, always Brick_L),
      (UP, always Brick_L), (UP, always Brick_L), (UP, always Brick_L),
      (DOWN, always Brick_L),
      (UP, always Brick_L)]"

definition overlapState :: State where
  "overlapState =
     \<lparr>phase = IN_PROGRESS,
      bricks = replicate 16 (emptyRow 10) @ replicate 4 ((emptyRow 10)[5 := Filled Brick_I]),
      score = Fin 0,
      fallingBrick = \<lparr>fb_type = Brick_L, fb_x = Fin 3, fb_y = Fin 17, fb_orientation = SPAWN\<rparr>,
      queue = [Brick_L, Brick_L, Brick_L, Brick_L],
      completedRowAnimationFrame = None\<rparr>"

text \<open>A source of chance that draws the types of a list in turn, and \<open>L\<close> after them.\<close>

definition draws :: "BrickType list \<Rightarrow> Random" where
  "draws ts = (\<lambda>n. if n < length ts then ts ! n else Brick_L)"

text \<open>
  A game that completes the last row of the board: an \<open>I\<close> is dropped at the columns
  0 to 3, a second \<open>I\<close> at the columns 4 to 7 and an \<open>O\<close> at the columns 8 and 9. The
  last clock tick locks the \<open>O\<close> in, awards 100 points and starts the row animation.
\<close>

definition clearActions :: "(Action \<times> Random) list" where
  "clearActions =
     [(START_GAME, draws [Brick_I, Brick_I, Brick_O]),
      (TICK_CLOCK, always Brick_L),
      (Action_LEFT, always Brick_L), (Action_LEFT, always Brick_L), (Action_LEFT, always Brick_L),
      (DOWN, always Brick_L),
      (TICK_CLOCK, always Brick_L),
      (TICK_CLOCK, always Brick_L),
      (Action_RIGHT, always Brick_L),
      (DOWN, always Brick_L),
      (TICK_CLOCK, always Brick_L),
      (TICK_CLOCK, always Brick_L),
      (Action_RIGHT, always Brick_L), (Action_RIGHT, always Brick_L),
      (Action_RIGHT, always Brick_L), (Action_RIGHT, always Brick_L),
      (DOWN, always Brick_L),
      (TICK_CLOCK, always Brick_L)]"

text \<open>The board of that game: the \<open>O\<close> reaches into row 18, row 19 is complete.\<close>

definition clearGrid :: Grid where
  "clearGrid = replicate 18 (emptyRow 10) @
     [replicate 8 emptyCell @ [Filled Brick_O, Filled Brick_O],
      replicate 8 (Filled Brick_I) @ [Filled Brick_O, Filled Brick_O]]"

text \<open>The state of that game while the row animation is at the counter \<open>f\<close>.\<close>

definition clearingState :: "int \<Rightarrow> State" where
  "clearingState f =
     \<lparr>phase = IN_PROGRESS,
      bricks = clearGrid,
      score = Fin 100,
      fallingBrick = \<lparr>fb_type = Brick_L, fb_x = NegInf, fb_y = NegInf, fb_orientation = SPAWN\<rparr>,
      queue = [Brick_L, Brick_L, Brick_L, Brick_L],
      completedRowAnimationFrame = Some (Fin f)\<rparr>"

text \<open>The state after the animation: the counter is absent, the complete row is gone.\<close>

definition clearedState :: State where
  "clearedState =
     \<lparr>phase = IN_PROGRESS,
      bricks = replicate 19 (emptyRow 10) @
        [replicate 8 emptyCell @ [Filled Brick_O, Filled Brick_O]],
      score = Fin 100,
      fallingBrick = \<lparr>fb_type = Brick_L, fb_x = NegInf, fb_y = NegInf, fb_orientation = SPAWN\<rparr>,
      queue = [Brick_L, Brick_L, Brick_L, Brick_L],
      completedRowAnimationFrame = None\<rparr>"

text \<open>
  A game that brings an \<open>I\<close> brick across the left wall: turned three times to the
  orientation \<open>LEFT\<close>, moved to the wall, turned once more and let fall one row. The
  board is empty.
\<close>

definition sideActions :: "(Action \<times> Random) list" where
  "sideActions =
     [(START_GAME, always Brick_I),
      (TICK_CLOCK, always Brick_I),
      (UP, always Brick_I), (UP, always Brick_I), (UP, always Brick_I),
      (Action_LEFT, always Brick_I), (Action_LEFT, always Brick_I),
      (Action_LEFT, always Brick_I), (Action_LEFT, always Brick_I),
      (UP, always Brick_I),
      (TICK_CLOCK, always Brick_I)]"

definition sideState :: State where
  "sideState =
     \<lparr>phase = IN_PROGRESS,
      bricks = emptyCells GRID_WIDTH GRID_HEIGHT,
      score = Fin 0,
      fallingBrick = \<lparr>fb_type = Brick_I, fb_x = Fin (- 1), fb_y = Fin (- 2), fb_orientation = SPAWN\<rparr>,
      queue = [Brick_I, Brick_I, Brick_I, Brick_I],
      completedRowAnimationFrame = None\<rparr>"


section \<open>Rounding to doubles\<close>

lemma spacing_pos: "0 < spacing n"
  by (induction n rule: spacing.induct) (subst spacing.simps, simp)

lemma spacing_multiple:
  "9007199254740992 \<le> n \<Longrightarrow> 9007199254740992 \<le> (n div spacing n) * spacing n"
proof (induction n rule: spacing.induct)
  case (1 n)
  let ?s = "spacing (n div 2)"
  have s: "spacing n = 2 * ?s"
    using 1(2) by (subst spacing.simps) simp
  have d: "n div (2 * ?s) = (n div 2) div ?s"
    by (simp add: div_mult2_eq)
  show ?case
  proof (cases "n div 2 < 9007199254740992")
    case True
    then have "?s = 1"
      by (subst spacing.simps) simp
    with 1(2) s show ?thesis
      by simp
  next
    case False
    with 1 have "9007199254740992 \<le> ((n div 2) div ?s) * ?s"
      by simp
    then show ?thesis
      unfolding s d by (simp add: mult.commute)
  qed
qed

lemma nearest_double_exact: "\<bar>v\<bar> \<le> two53 \<Longrightarrow> nearest_double v = Fin v"
  by (simp add: nearest_double_def)

text \<open>Beyond \<open>2^53\<close> the rounded magnitude is \<open>2^53\<close> at least.\<close>

lemma rounded_magnitude:
  assumes "two53 < a"
  shows "two53 \<le> (if 2 * (a mod int (spacing (nat a))) < int (spacing (nat a))
                       \<or> (2 * (a mod int (spacing (nat a))) = int (spacing (nat a))
                           \<and> even (a div int (spacing (nat a))))
                    then a div int (spacing (nat a)) else a div int (spacing (nat a)) + 1)
                   * int (spacing (nat a))"
proof -
  let ?q = "int (spacing (nat a))"
  have q: "0 < ?q"
    by (simp add: spacing_pos)
  from assms have "9007199254740992 \<le> nat a"
    by simp
  from spacing_multiple [OF this] have "two53 \<le> int ((nat a div spacing (nat a)) * spacing (nat a))"
    by linarith
  also have "int ((nat a div spacing (nat a)) * spacing (nat a)) = (a div ?q) * ?q"
    using assms by (simp add: zdiv_int)
  finally have low: "two53 \<le> (a div ?q) * ?q" .
  have "(a div ?q) * ?q \<le> (a div ?q + 1) * ?q"
    using q by (simp add: distrib_right)
  with low show ?thesis
    by auto
qed

lemma nearest_double_above: "two53 < v \<Longrightarrow> at_least two53 (nearest_double v)"
  using rounded_magnitude [of v]
  by (simp add: nearest_double_def at_least_def Let_def)

lemma nearest_double_below: "v < - two53 \<Longrightarrow> at_most (- two53) (nearest_double v)"
  using rounded_magnitude [of "- v"]
  by (simp add: nearest_double_def at_most_def Let_def)

lemma nearest_double_at_least:
  assumes "c \<le> v" and "- two53 \<le> c" and "c \<le> two53"
  shows "at_least c (nearest_double v)"
proof (cases "v \<le> two53")
  case True
  with assms have "nearest_double v = Fin v"
    by (intro nearest_double_exact) simp
  with assms show ?thesis
    by (simp add: at_least_def)
next
  case False
  then have "at_least two53 (nearest_double v)"
    by (intro nearest_double_above) simp
  with assms show ?thesis
    by (auto simp: at_least_def split: jsnum.splits)
qed

lemma nearest_double_at_most:
  assumes "v \<le> c" and "- two53 \<le> c" and "c \<le> two53"
  shows "at_most c (nearest_double v)"
proof (cases "- two53 \<le> v")
  case True
  with assms have "nearest_double v = Fin v"
    by (intro nearest_double_exact) simp
  with assms show ?thesis
    by (simp add: at_most_def)
next
  case False
  then have "at_most (- two53) (nearest_double v)"
    by (intro nearest_double_below) simp
  with assms show ?thesis
    by (auto simp: at_most_def split: jsnum.splits)
qed

lemma plus_js_exact: "\<bar>a + k\<bar> \<le> two53 \<Longrightarrow> plus_js (Fin a) k = Fin (a + k)"
  by (simp add: nearest_double_exact)

lemma plus_js_at_least:
  assumes "at_least c v" and "0 \<le> k" and "- two53 \<le> c + k" and "c + k \<le> two53"
  shows "at_least (c + k) (plus_js v k)"
proof (cases v)
  case (Fin w)
  with assms have "c + k \<le> w + k"
    by (simp add: at_least_def)
  from nearest_double_at_least [OF this assms(3,4)] Fin show ?thesis
    by simp
qed (insert assms, simp_all add: at_least_def)

lemma at_least_mono: "at_least c v \<Longrightarrow> c' \<le> c \<Longrightarrow> at_least c' v"
  by (auto simp: at_least_def split: jsnum.splits)

lemma index_js_at_least: "at_least (int (length xs)) v \<Longrightarrow> index_js xs v = None"
  by (auto simp: at_least_def split: jsnum.splits)

lemma index_js_at_most: "at_most (- 1) v \<Longrightarrow> index_js xs v = None"
  by (auto simp: at_most_def split: jsnum.splits)

lemma plus_js_keeps_at_least:
  assumes "at_least c v" and "0 \<le> k" and "- two53 \<le> c" and "c \<le> two53"
  shows "at_least c (plus_js v k)"
proof (cases v)
  case (Fin w)
  with assms have "c \<le> w + k"
    by (simp add: at_least_def)
  from nearest_double_at_least [OF this assms(3,4)] Fin show ?thesis
    by simp
qed (insert assms, simp_all add: at_least_def)

lemma fallBy_0 [simp]: "fallBy 0 v = v"
  by (simp add: fallBy_def)

lemma fallBy_Suc: "fallBy (Suc n) v = fallBy n (plus_js v 1)"
  using funpow_swap1 [of "\<lambda>w. plus_js w 1" n v] by (simp add: fallBy_def)

text \<open>Inside \<open>-2^53 .. 2^53\<close>, \<open>n\<close> steps add \<open>n\<close>.\<close>

lemma fallBy_exact:
  "- two53 \<le> y \<Longrightarrow> y + int n \<le> two53 \<Longrightarrow> fallBy n (Fin y) = Fin (y + int n)"
proof (induction n arbitrary: y)
  case 0
  show ?case by simp
next
  case (Suc n)
  then have "plus_js (Fin y) 1 = Fin (y + 1)"
    by (intro plus_js_exact) simp
  with Suc.IH [of "y + 1"] Suc.prems show ?case
    by (simp add: fallBy_Suc add.assoc)
qed


section \<open>Cells outside the board and collision\<close>

lemma collision_iff:
  "collision grid shp x0 y0 \<longleftrightarrow>
     (\<exists>cy<shapeSize shp. \<exists>cx<shapeSize shp. bitAt shp cy cx \<noteq> 0
        \<and> \<not> isEmptyCell grid (plus_js x0 (int cx)) (plus_js y0 (int cy)))"
  unfolding collision_def list_ex_iff Let_def by (simp add: Bex_def)

lemma isEmptyCell_row_outside:
  "y < 0 \<or> int (length grid) \<le> y \<Longrightarrow> isEmptyCell grid xj (Fin y)"
  by (auto simp: isEmptyCell_def)

lemma isEmptyCell_no_row: "index_js grid yj = None \<Longrightarrow> isEmptyCell grid xj yj"
  by (simp add: isEmptyCell_def)

lemma isEmptyCell_no_column:
  "index_js grid yj = Some row \<Longrightarrow> index_js row xj = None \<Longrightarrow> \<not> isEmptyCell grid xj yj"
  by (simp add: isEmptyCell_def)

lemma isEmptyCell_column_outside:
  assumes "0 \<le> y" and "y < int (length grid)"
    and "x < 0 \<or> int (length (grid ! nat y)) \<le> x"
  shows "\<not> isEmptyCell grid (Fin x) (Fin y)"
  using assms by (auto simp: isEmptyCell_def)

text \<open>
  A cell whose row, computed as a sum, is outside the board is empty, and a cell in a
  row of the board whose column, computed as a sum, is outside the row is not: rounding
  a sum does not move it across a bound of the board.
\<close>

lemma isEmptyCell_sum_row_outside:
  assumes "y0 + k < 0 \<or> int (length grid) \<le> y0 + k" and "int (length grid) \<le> two53"
  shows "isEmptyCell grid xj (plus_js (Fin y0) k)"
proof (rule isEmptyCell_no_row)
  from assms(1) show "index_js grid (plus_js (Fin y0) k) = None"
  proof
    assume "y0 + k < 0"
    then have "at_most (- 1) (nearest_double (y0 + k))"
      by (intro nearest_double_at_most) simp_all
    then show ?thesis
      by (simp add: index_js_at_most)
  next
    assume "int (length grid) \<le> y0 + k"
    then have "at_least (int (length grid)) (nearest_double (y0 + k))"
      using assms(2) by (intro nearest_double_at_least) simp_all
    then show ?thesis
      by (simp add: index_js_at_least)
  qed
qed

lemma isEmptyCell_sum_column_outside:
  assumes "0 \<le> y0 + k" and "y0 + k < int (length grid)" and "int (length grid) \<le> two53"
    and "x0 + j < 0 \<or> int (length (grid ! nat (y0 + k))) \<le> x0 + j"
    and "int (length (grid ! nat (y0 + k))) \<le> two53"
  shows "\<not> isEmptyCell grid (plus_js (Fin x0) j) (plus_js (Fin y0) k)"
proof (rule isEmptyCell_no_column)
  from assms(1,2,3) have "plus_js (Fin y0) k = Fin (y0 + k)"
    by (intro plus_js_exact) simp
  with assms(1,2) show "index_js grid (plus_js (Fin y0) k) = Some (grid ! nat (y0 + k))"
    by simp
  from assms(4) show "index_js (grid ! nat (y0 + k)) (plus_js (Fin x0) j) = None"
  proof
    assume "x0 + j < 0"
    then have "at_most (- 1) (nearest_double (x0 + j))"
      by (intro nearest_double_at_most) simp_all
    then show ?thesis
      by (simp add: index_js_at_most)
  next
    assume "int (length (grid ! nat (y0 + k))) \<le> x0 + j"
    then have "at_least (int (length (grid ! nat (y0 + k)))) (nearest_double (x0 + j))"
      using assms(5) by (intro nearest_double_at_least) simp_all
    then show ?thesis
      by (simp add: index_js_at_least)
  qed
qed


section \<open>What the reducer changes\<close>

lemma writeFallingBrickToGrid_frame:
  "writeFallingBrickToGrid state = Inr state' \<Longrightarrow> \<exists>grid'. state' = state\<lparr>bricks := grid'\<rparr>"
  by (auto simp: writeFallingBrickToGrid_def split: sum.splits)

lemma tickClock_cases:
  assumes "tickClock state rnd = Inr state'"
  shows "(\<not> locksIn state \<and> queue state' = queue state)
     \<or> (locksIn state \<and> (\<exists>front rest. queue state = front # rest
            \<and> queue state' = take (QUEUE_SIZE - 1) rest @ [rnd 0]
            \<and> fallingBrick state' = newFallingBrick front))"
proof (cases "locksIn state")
  case False
  with assms show ?thesis
    by (auto simp: tickClock_def locksIn_def brickToTick_def tickGravity_def gameOver_def
        removeCompletedRows_def tickCompletedRowAnimation_def Let_def
        split: if_splits)
next
  case True
  with assms obtain state2 state3 where
    w: "writeFallingBrickToGrid (state\<lparr>fallingBrick := brickToTick state\<rparr>) = Inr state2"
    and d: "dequeueNextBrick state2 (rnd 0) = Inr state3"
    and r: "state' = state3 \<or> state' = awardPoints (tickCompletedRowAnimation state3)"
    by (auto simp: tickClock_def locksIn_def brickToTick_def tickGravity_def Let_def
        split: if_splits sum.splits)
  from w obtain grid' where s2: "state2 = state\<lparr>fallingBrick := brickToTick state, bricks := grid'\<rparr>"
    by (auto dest: writeFallingBrickToGrid_frame)
  from d s2 obtain front rest where "queue state = front # rest"
    "state3 = state2\<lparr>queue := take (QUEUE_SIZE - 1) rest @ [rnd 0],
                     fallingBrick := newFallingBrick front\<rparr>"
    by (auto simp: dequeueNextBrick_def split: list.splits)
  with r True show ?thesis
    by (auto simp: awardPoints_def tickCompletedRowAnimation_def)
qed

lemma key_action_frame:
  assumes "action \<in> {DOWN, Action_LEFT, Action_RIGHT, UP}"
    and "handleActions state action rnd = Some (Inr state')"
  shows "\<exists>fb'. state' = state\<lparr>fallingBrick := fb'\<rparr>"
  using assms by (auto simp: handleActions_def split: option.splits)

lemma initialState_queue: "queue (initialState rnd) = [rnd 1, rnd 2, rnd 3, rnd 4]"
  by (simp add: initialState_def upt_rec numeral_eq_Suc)

lemma handleActions_queue_length:
  assumes "length (queue state) = QUEUE_SIZE"
    and "handleActions state action rnd = Some (Inr state')"
  shows "length (queue state') = QUEUE_SIZE"
proof (cases action)
  case TICK_CLOCK
  with assms(2) have "tickClock state rnd = Inr state'"
    by (simp add: handleActions_def)
  from tickClock_cases [OF this] assms(1) show ?thesis
    by auto
next
  case START_GAME
  with assms(2) show ?thesis
    by (auto simp: handleActions_def initialState_queue)
next
  case DOWN
  with assms key_action_frame [of action state rnd state'] show ?thesis by auto
next
  case Action_LEFT
  with assms key_action_frame [of action state rnd state'] show ?thesis by auto
next
  case Action_RIGHT
  with assms key_action_frame [of action state rnd state'] show ?thesis by auto
next
  case UP
  with assms key_action_frame [of action state rnd state'] show ?thesis by auto
qed

lemma reachable_queue_length: "reachable state \<Longrightarrow> length (queue state) = QUEUE_SIZE"
proof (induction rule: reachable.induct)
  case (reachable_initial rnd)
  show ?case by (simp add: initialState_queue)
next
  case (reachable_step state action rnd state')
  then show ?case by (simp add: handleActions_queue_length)
qed

lemma spawn_type: "fb_type (spawn fb) = fb_type fb"
  by (simp add: spawn_def Let_def)

lemma brickToTick_type: "fb_type (brickToTick state) = fb_type (fallingBrick state)"
  by (simp add: brickToTick_def spawn_type)

text \<open>A clock tick that does not lock the brick in keeps the type of the falling brick.\<close>

lemma tickClock_no_lock_type:
  assumes "tickClock state rnd = Inr state'" and "\<not> locksIn state"
  shows "fb_type (fallingBrick state') = fb_type (fallingBrick state)"
  using assms
  by (auto simp: tickClock_def locksIn_def brickToTick_def spawn_type tickGravity_def
      gameOver_def removeCompletedRows_def tickCompletedRowAnimation_def Let_def
      split: if_splits)


section \<open>The loop of the hard drop\<close>

lemma isUnspawned_fb_y [simp]: "isUnspawned (fb\<lparr>fb_y := v\<rparr>) = isUnspawned fb"
  by (simp add: isUnspawned_def)

lemma shape_fb_y [simp]: "shape (fb\<lparr>fb_y := v\<rparr>) = shape fb"
  by (simp add: shape_def Let_def)

lemma bitAt_row_not_empty:
  "bitAt shp r c \<noteq> 0 \<Longrightarrow> \<not> isEmptyBitGridRow shp r"
  by (auto simp: bitAt_def isEmptyBitGridRow_def list_all_length split: if_splits)

lemma isTouchingFloor_iff:
  "isTouchingFloor fb \<longleftrightarrow>
     (\<exists>r<shapeSize (shape fb). \<not> isEmptyBitGridRow (shape fb) r
        \<and> plus_js (plus_js (fb_y fb) (int r)) 1 = Fin (int GRID_HEIGHT))"
  unfolding isTouchingFloor_def Let_def list_ex_iff by (simp add: Bex_def)

text \<open>What the loop of \<open>fastFall\<close> returns, when it returns.\<close>

lemma fastFallLoop_result:
  assumes "fastFallLoop fb grid = Some fb'"
  shows "\<not> canFall fb' grid
     \<and> (\<exists>n. fb' = fb\<lparr>fb_y := fallBy n (fb_y fb)\<rparr>
            \<and> (\<forall>k<n. canFall (fb\<lparr>fb_y := fallBy k (fb_y fb)\<rparr>) grid))"
proof (rule fastFallLoop.raw_induct
    [where P = "\<lambda>b g b'. \<not> canFall b' g
       \<and> (\<exists>n. b' = b\<lparr>fb_y := fallBy n (fb_y b)\<rparr>
              \<and> (\<forall>k<n. canFall (b\<lparr>fb_y := fallBy k (fb_y b)\<rparr>) g))", OF _ assms])
  fix loop b g b'
  assume IH: "\<And>b g b'. loop b g = Some b' \<Longrightarrow> \<not> canFall b' g
       \<and> (\<exists>n. b' = b\<lparr>fb_y := fallBy n (fb_y b)\<rparr>
              \<and> (\<forall>k<n. canFall (b\<lparr>fb_y := fallBy k (fb_y b)\<rparr>) g))"
    and step: "(if canFall b g then loop (b\<lparr>fb_y := plus_js (fb_y b) 1\<rparr>) g else Some b) = Some b'"
  show "\<not> canFall b' g
       \<and> (\<exists>n. b' = b\<lparr>fb_y := fallBy n (fb_y b)\<rparr>
              \<and> (\<forall>k<n. canFall (b\<lparr>fb_y := fallBy k (fb_y b)\<rparr>) g))"
  proof (cases "canFall b g")
    case False
    with step have "b' = b" by simp
    with False show ?thesis
      by (intro conjI exI [of _ 0]) simp_all
  next
    case True
    with step have "loop (b\<lparr>fb_y := plus_js (fb_y b) 1\<rparr>) g = Some b'"
      by simp
    from IH [OF this] obtain n where stop: "\<not> canFall b' g"
      and n: "b' = b\<lparr>fb_y := fallBy (Suc n) (fb_y b)\<rparr>"
      and before: "\<forall>k<n. canFall (b\<lparr>fb_y := fallBy (Suc k) (fb_y b)\<rparr>) g"
      by (auto simp: fallBy_Suc)
    have "canFall (b\<lparr>fb_y := fallBy k (fb_y b)\<rparr>) g" if "k < Suc n" for k
    proof (cases k)
      case 0
      with True show ?thesis by simp
    next
      case (Suc j)
      with that before show ?thesis by simp
    qed
    with stop n show ?thesis
      by blast
  qed
qed

text \<open>
  The loop ends when \<open>y\<close> is \<open>-2^53\<close> at least, so that every \<open>y++\<close> adds 1, and a
  row of the shape that is not empty is at or above the last row of the board: that row
  reaches the floor after finitely many steps, if nothing stops the brick before.
\<close>

lemma fastFallLoop_terminates:
  assumes "fb_y fb = Fin y" and "- two53 \<le> y" and "r < shapeSize (shape fb)"
    and "\<not> isEmptyBitGridRow (shape fb) r" and "y + int r < int GRID_HEIGHT"
  shows "\<exists>fb'. fastFallLoop fb grid = Some fb'"
  using assms
proof (induction "nat (19 - (y + int r))" arbitrary: fb y)
  case 0
  then have "plus_js (fb_y fb) (int r) = Fin (y + int r)"
    by (simp add: nearest_double_exact)
  moreover from 0 have "plus_js (Fin (y + int r)) 1 = Fin (int GRID_HEIGHT)"
    by (simp add: nearest_double_exact)
  ultimately have "isTouchingFloor fb"
    using 0 unfolding isTouchingFloor_iff by auto
  then have "\<not> canFall fb grid"
    by (simp add: canFall_def)
  then show ?case
    by (subst fastFallLoop.simps) simp
next
  case (Suc n)
  show ?case
  proof (cases "canFall fb grid")
    case False
    then show ?thesis
      by (subst fastFallLoop.simps) simp
  next
    case True
    let ?fb = "fb\<lparr>fb_y := plus_js (fb_y fb) 1\<rparr>"
    have next_y: "plus_js (fb_y fb) 1 = Fin (y + 1)"
      using Suc(2,3,4) by (simp add: nearest_double_exact)
    have "\<exists>fb'. fastFallLoop ?fb grid = Some fb'"
    proof (rule Suc(1) [of "y + 1"])
      show "n = nat (19 - (y + 1 + int r))" using Suc(2) by simp
      show "fb_y ?fb = Fin (y + 1)" using next_y by simp
      show "- two53 \<le> y + 1" using Suc(4) by simp
      show "r < shapeSize (shape ?fb)" using Suc(5) by simp
      show "\<not> isEmptyBitGridRow (shape ?fb) r" using Suc(6) by simp
      show "y + 1 + int r < int GRID_HEIGHT" using Suc(2) by simp
    qed
    with True show ?thesis
      by (subst fastFallLoop.simps) simp
  qed
qed

text \<open>
  The loop never ends for a brick whose bounding box begins below the board: no row is
  at the floor, every cell below the board counts as empty, and no step of \<open>y++\<close> brings
  \<open>y\<close> back (from \<open>2^53\<close> on it no longer moves at all).
\<close>

lemma fastFallLoop_below_board:
  assumes "fastFallLoop fb grid = Some fb'"
    and "at_least (int GRID_HEIGHT) (fb_y fb)"
    and "at_least (int (length grid)) (fb_y fb)"
    and "int (length grid) \<le> two53"
  shows False
proof -
  have "at_least (int GRID_HEIGHT) (fb_y fb) \<and> at_least (int (length grid)) (fb_y fb)
      \<and> int (length grid) \<le> two53 \<longrightarrow> False"
  proof (rule fastFallLoop.raw_induct
      [where P = "\<lambda>b g b'. at_least (int GRID_HEIGHT) (fb_y b)
        \<and> at_least (int (length g)) (fb_y b) \<and> int (length g) \<le> two53 \<longrightarrow> False",
        OF _ assms(1)])
    fix loop b g b'
    assume IH: "\<And>b g b'. loop b g = Some b' \<Longrightarrow> at_least (int GRID_HEIGHT) (fb_y b)
        \<and> at_least (int (length g)) (fb_y b) \<and> int (length g) \<le> two53 \<longrightarrow> False"
      and step: "(if canFall b g then loop (b\<lparr>fb_y := plus_js (fb_y b) 1\<rparr>) g else Some b) = Some b'"
    show "at_least (int GRID_HEIGHT) (fb_y b)
        \<and> at_least (int (length g)) (fb_y b) \<and> int (length g) \<le> two53 \<longrightarrow> False"
    proof (intro impI, elim conjE)
      assume low: "at_least (int GRID_HEIGHT) (fb_y b)"
        and out: "at_least (int (length g)) (fb_y b)"
        and small: "int (length g) \<le> two53"
      have "plus_js (plus_js (fb_y b) (int r)) 1 \<noteq> Fin (int GRID_HEIGHT)" for r
      proof -
        from low have a: "at_least 20 (plus_js (fb_y b) (int r))"
          by (intro plus_js_keeps_at_least) simp_all
        have "at_least (20 + 1) (plus_js (plus_js (fb_y b) (int r)) 1)"
          by (intro plus_js_at_least [OF a]) simp_all
        then show ?thesis
          by (auto simp: at_least_def)
      qed
      then have "\<not> isTouchingFloor b"
        unfolding isTouchingFloor_iff by simp
      moreover have "isEmptyCell g xj (plus_js (plus_js (fb_y b) 1) (int r))" for xj r
      proof (rule isEmptyCell_no_row, rule index_js_at_least)
        from out small have a: "at_least (int (length g)) (plus_js (fb_y b) 1)"
          by (intro plus_js_keeps_at_least) simp_all
        from small show "at_least (int (length g)) (plus_js (plus_js (fb_y b) 1) (int r))"
          by (intro plus_js_keeps_at_least [OF a]) simp_all
      qed
      then have "\<not> isOnTopOfBricks b g"
        unfolding isOnTopOfBricks_def collision_iff by simp
      ultimately have fall: "canFall b g"
        by (simp add: canFall_def)
      let ?b = "b\<lparr>fb_y := plus_js (fb_y b) 1\<rparr>"
      from fall step have "loop ?b g = Some b'"
        by simp
      moreover have "at_least (int GRID_HEIGHT) (plus_js (fb_y b) 1)"
        using low by (intro plus_js_keeps_at_least) simp_all
      then have "at_least (int GRID_HEIGHT) (fb_y ?b)"
        by simp
      moreover have "at_least (int (length g)) (plus_js (fb_y b) 1)"
        using out small by (intro plus_js_keeps_at_least) simp_all
      then have "at_least (int (length g)) (fb_y ?b)"
        by simp
      ultimately show False
        using IH small by blast
    qed
  qed
  with assms(2,3,4) show False
    by blast
qed


lemma fastFall_result:
  assumes "fastFall fb grid = Some fb'"
  shows "\<exists>n. fb' = fb\<lparr>fb_y := fallBy n (fb_y fb)\<rparr>
       \<and> (\<forall>k<n. canFall (fb\<lparr>fb_y := fallBy k (fb_y fb)\<rparr>) grid)
       \<and> (if isUnspawned fb then n = 0 else \<not> canFall fb' grid)"
proof (cases "isUnspawned fb")
  case True
  with assms have "fb' = fb"
    by (simp add: fastFall_def)
  with True show ?thesis
    by (intro exI [of _ 0]) simp
next
  case False
  with assms have "fastFallLoop fb grid = Some fb'"
    by (simp add: fastFall_def)
  from fastFallLoop_result [OF this] False show ?thesis
    by auto
qed



text \<open>
  Where the hard drop ends, in integers: the brick falls \<open>n\<close> rows, through positions
  where it can fall, to the first one where it cannot, and the row \<open>r\<close> is not moved
  past the last row of the board.
\<close>

lemma fastFall_lands:
  assumes spawned: "\<not> isUnspawned fb" and y: "fb_y fb = Fin y" and low: "- two53 \<le> y"
    and r: "r < shapeSize (shape fb)" "\<not> isEmptyBitGridRow (shape fb) r"
    and above: "y + int r < int GRID_HEIGHT"
  shows "\<exists>n. fastFall fb grid = Some (fb\<lparr>fb_y := Fin (y + int n)\<rparr>)
       \<and> y + int n + int r < int GRID_HEIGHT
       \<and> \<not> canFall (fb\<lparr>fb_y := Fin (y + int n)\<rparr>) grid
       \<and> (\<forall>k<n. canFall (fb\<lparr>fb_y := Fin (y + int k)\<rparr>) grid)"
proof -
  from fastFallLoop_terminates [OF y low r above] spawned
  obtain fb' where ret: "fastFall fb grid = Some fb'"
    by (auto simp: fastFall_def)
  from fastFall_result [OF ret] spawned y obtain n where
    n: "fb' = fb\<lparr>fb_y := fallBy n (Fin y)\<rparr>"
    and before: "\<forall>k<n. canFall (fb\<lparr>fb_y := fallBy k (Fin y)\<rparr>) grid"
    and stop: "\<not> canFall fb' grid"
    by auto
  let ?d = "nat (19 - (y + int r))"
  have exact: "fallBy k (Fin y) = Fin (y + int k)" if "k \<le> ?d" for k
    using low above that by (intro fallBy_exact) simp_all
  have "n \<le> ?d"
  proof (rule ccontr)
    assume "\<not> n \<le> ?d"
    then have "?d < n" by simp
    with before have fall: "canFall (fb\<lparr>fb_y := fallBy ?d (Fin y)\<rparr>) grid"
      by blast
    have at_floor: "y + int ?d + int r = 19"
      using above by simp
    have "plus_js (Fin (y + int ?d)) (int r) = Fin 19"
      using at_floor by (simp add: nearest_double_exact)
    then have "plus_js (plus_js (Fin (y + int ?d)) (int r)) 1 = Fin (int GRID_HEIGHT)"
      by (simp add: nearest_double_exact)
    with r have "isTouchingFloor (fb\<lparr>fb_y := Fin (y + int ?d)\<rparr>)"
      unfolding isTouchingFloor_iff by auto
    with fall show False
      by (simp add: exact canFall_def)
  qed
  then have "y + int n + int r < int GRID_HEIGHT"
    using above by simp
  moreover from \<open>n \<le> ?d\<close> have "fb' = fb\<lparr>fb_y := Fin (y + int n)\<rparr>"
    using n by (simp add: exact)
  moreover from \<open>n \<le> ?d\<close> before
  have "\<forall>k<n. canFall (fb\<lparr>fb_y := Fin (y + int k)\<rparr>) grid"
    by (auto simp: exact)
  ultimately show ?thesis
    using ret stop by blast
qed


section \<open>A brick below the floor\<close>

lemma stuckState_reached:
  "runActions (initialState (always Brick_L)) stuckActions = Some (Inr stuckState)"
  by code_simp

lemma stuckState_shape: "shape (fallingBrick stuckState) = [[0, 0, 0], [1, 1, 1], [0, 0, 1]]"
  by code_simp

text \<open>
  The brick of \<open>stuckState\<close> can fall, and one step further its bounding box begins at
  row 20.
\<close>

lemma stuckState_no_return: "fastFall (fallingBrick stuckState) (bricks stuckState) = None"
proof -
  let ?fb = "fallingBrick stuckState" and ?g = "bricks stuckState"
  let ?fb1 = "?fb\<lparr>fb_y := plus_js (fb_y ?fb) 1\<rparr>"
  have spawned: "\<not> isUnspawned ?fb"
    by (simp add: isUnspawned_def stuckState_def)
  have fall: "canFall ?fb ?g"
    by code_simp
  have step: "fastFallLoop ?fb ?g = fastFallLoop ?fb1 ?g"
    by (subst fastFallLoop.simps) (simp add: fall)
  have y: "fb_y ?fb1 = Fin 20"
    by (simp add: stuckState_def nearest_double_exact)
  have len: "length ?g = 20"
    by (simp add: stuckState_def)
  have "fastFallLoop ?fb1 ?g = None"
  proof (cases "fastFallLoop ?fb1 ?g")
    case (Some fb')
    have "False"
    proof (rule fastFallLoop_below_board [OF Some])
      show "at_least (int GRID_HEIGHT) (fb_y ?fb1)"
        unfolding y by (simp add: at_least_def)
      show "at_least (int (length ?g)) (fb_y ?fb1)"
        unfolding y len by (simp add: at_least_def)
      show "int (length ?g) \<le> two53"
        unfolding len by simp
    qed
    then show ?thesis ..
  qed simp
  with spawned step show ?thesis
    by (simp add: fastFall_def)
qed


section \<open>The key actions and the phase\<close>

lemma tryWallKicks_type:
  "fb_type (tryWallKicks fb grid nextOrientation nextShape pairs) = fb_type fb"
  by (induction pairs) auto

lemma rotate_brick_type: "fb_type (rotate_brick fb grid) = fb_type fb"
  by (simp add: rotate_brick_def Let_def tryWallKicks_type)

lemma moveLeft_type: "fb_type (moveLeft fb grid) = fb_type fb"
  by (simp add: moveLeft_def)

lemma moveRight_type: "fb_type (moveRight fb grid) = fb_type fb"
  by (simp add: moveRight_def)

lemma fastFall_type: "fastFall fb grid = Some fb' \<Longrightarrow> fb_type fb' = fb_type fb"
  by (auto dest: fastFall_result)

lemma key_action_type:
  assumes "action \<in> {DOWN, Action_LEFT, Action_RIGHT, UP}"
    and "handleActions state action rnd = Some (Inr state')"
  shows "fb_type (fallingBrick state') = fb_type (fallingBrick state)"
  using assms
  by (auto simp: handleActions_def rotate_brick_type moveLeft_type moveRight_type
      fastFall_type split: option.splits)

lemma key_action_unspawned:
  assumes "action \<in> {DOWN, Action_LEFT, Action_RIGHT, UP}"
    and "isUnspawned (fallingBrick state)"
  shows "handleActions state action rnd = Some (Inr state)"
  using assms
  by (auto simp: handleActions_def rotate_brick_def moveLeft_def moveRight_def fastFall_def)

lemma tickClock_phase:
  assumes "tickClock state rnd = Inr state'"
  shows "(phase state \<noteq> IN_PROGRESS \<and> state' = state)
     \<or> (phase state = IN_PROGRESS \<and> phase state' \<noteq> UNSTARTED)"
proof (cases "phase state = IN_PROGRESS")
  case False
  with assms show ?thesis
    by (simp add: tickClock_def)
next
  case True
  have "phase state' \<noteq> UNSTARTED"
  proof (cases "locksIn state")
    case False
    with assms True show ?thesis
      by (auto simp: tickClock_def locksIn_def brickToTick_def tickGravity_def gameOver_def
          removeCompletedRows_def tickCompletedRowAnimation_def Let_def
          split: if_splits)
  next
    case lock: True
    with assms obtain state2 state3 where
      w: "writeFallingBrickToGrid (state\<lparr>fallingBrick := brickToTick state\<rparr>) = Inr state2"
      and d: "dequeueNextBrick state2 (rnd 0) = Inr state3"
      and r: "state' = state3 \<or> state' = awardPoints (tickCompletedRowAnimation state3)"
      by (auto simp: tickClock_def locksIn_def brickToTick_def tickGravity_def Let_def
          split: if_splits sum.splits)
    from w have "phase state2 = phase state"
      by (auto dest: writeFallingBrickToGrid_frame)
    with d have "phase state3 = phase state"
      by (auto simp: dequeueNextBrick_def split: list.splits)
    with r True show ?thesis
      by (auto simp: awardPoints_def tickCompletedRowAnimation_def)
  qed
  with True show ?thesis by simp
qed

lemma reachable_UNSTARTED:
  "reachable state \<Longrightarrow> phase state = UNSTARTED \<Longrightarrow> isUnspawned (fallingBrick state)"
proof (induction rule: reachable.induct)
  case (reachable_initial rnd)
  show ?case
    by (simp add: initialState_def newFallingBrick_def isUnspawned_def)
next
  case (reachable_step state action rnd state')
  show ?case
  proof (cases action)
    case TICK_CLOCK
    with reachable_step(2) have "tickClock state rnd = Inr state'"
      by (simp add: handleActions_def)
    from tickClock_phase [OF this] reachable_step(3,4) show ?thesis
      by auto
  next
    case START_GAME
    with reachable_step(2,4) show ?thesis
      by (auto simp: handleActions_def)
  next
    case DOWN
    with reachable_step(2) key_action_frame [of action state rnd state']
    have "phase state = phase state'" by auto
    with reachable_step(3,4) have "isUnspawned (fallingBrick state)" by simp
    with DOWN reachable_step(2) key_action_unspawned [of action state rnd] show ?thesis
      by auto
  next
    case Action_LEFT
    with reachable_step(2) key_action_frame [of action state rnd state']
    have "phase state = phase state'" by auto
    with reachable_step(3,4) have "isUnspawned (fallingBrick state)" by simp
    with Action_LEFT reachable_step(2) key_action_unspawned [of action state rnd] show ?thesis
      by auto
  next
    case Action_RIGHT
    with reachable_step(2) key_action_frame [of action state rnd state']
    have "phase state = phase state'" by auto
    with reachable_step(3,4) have "isUnspawned (fallingBrick state)" by simp
    with Action_RIGHT reachable_step(2) key_action_unspawned [of action state rnd] show ?thesis
      by auto
  next
    case UP
    with reachable_step(2) key_action_frame [of action state rnd state']
    have "phase state = phase state'" by auto
    with reachable_step(3,4) have "isUnspawned (fallingBrick state)" by simp
    with UP reachable_step(2) key_action_unspawned [of action state rnd] show ?thesis
      by auto
  qed
qed

lemma overState_reached:
  "runActions (initialState (always Brick_L)) overActions = Some (Inr overState)"
  by code_simp


section \<open>Two games with a rotation at the floor\<close>

lemma wallState_reached:
  "runActions (initialState (always Brick_L)) wallActions = Some (Inr wallState)"
  by code_simp

lemma overlapState_reached:
  "runActions (initialState (always Brick_L)) overlapActions = Some (Inr overlapState)"
  by code_simp


section \<open>Removing the completed rows\<close>

lemma pushRemaining_filter:
  "pushRemaining grid remaining = remaining @ filter (\<lambda>row. \<not> isCompleteRow row) grid"
  by (induction grid arbitrary: remaining) simp_all

lemma pushEmptyRows_replicate:
  "pushEmptyRows n newGrid = newGrid @ replicate n (emptyRow GRID_WIDTH)"
  by (induction n arbitrary: newGrid) (simp_all add: replicate_append_same)

lemma pushRows_append: "pushRows rows newGrid = newGrid @ rows"
  by (induction rows arbitrary: newGrid) simp_all

lemma removeCompletedRowsFromGrid_eq:
  "removeCompletedRowsFromGrid grid =
     replicate (GRID_HEIGHT - length (filter (\<lambda>row. \<not> isCompleteRow row) grid)) (emptyRow GRID_WIDTH)
       @ filter (\<lambda>row. \<not> isCompleteRow row) grid"
  by (simp add: removeCompletedRowsFromGrid_def pushRemaining_filter pushEmptyRows_replicate
      pushRows_append Let_def)

lemma emptyRow_not_complete: "\<not> isCompleteRow (emptyRow GRID_WIDTH)"
  by (simp add: isCompleteRow_def emptyRow_def list_all_iff)

lemma removeCompletedRowsFromGrid_no_complete:
  "\<not> hasCompletedRow (removeCompletedRowsFromGrid grid)"
  by (auto simp: removeCompletedRowsFromGrid_eq hasCompletedRow_def list_ex_iff
      emptyRow_not_complete)

text \<open>
  Claim C6. On a grid of 20 rows, \<open>removeCompletedRowsFromGrid\<close> returns the rows that
  are not complete, in their order, below as many fresh rows of 10 empty cells as
  restore 20 rows; the result has 20 rows; a grid without a complete row comes back
  with the same content.
\<close>

theorem removeCompletedRowsFromGrid_spec:
  "length grid = GRID_HEIGHT \<Longrightarrow>
     removeCompletedRowsFromGrid grid =
       replicate (GRID_HEIGHT - length (filter (\<lambda>row. \<not> isCompleteRow row) grid))
         (replicate GRID_WIDTH emptyCell)
       @ filter (\<lambda>row. \<not> isCompleteRow row) grid
     \<and> length (removeCompletedRowsFromGrid grid) = GRID_HEIGHT
     \<and> (\<not> hasCompletedRow grid \<longrightarrow> removeCompletedRowsFromGrid grid = grid)"
proof -
  assume len: "length grid = GRID_HEIGHT"
  let ?rest = "filter (\<lambda>row. \<not> isCompleteRow row) grid"
  have le: "length ?rest \<le> GRID_HEIGHT"
    using len length_filter_le [of "\<lambda>row. \<not> isCompleteRow row" grid] by simp
  have eq: "removeCompletedRowsFromGrid grid =
      replicate (GRID_HEIGHT - length ?rest) (replicate GRID_WIDTH emptyCell) @ ?rest"
    by (simp add: removeCompletedRowsFromGrid_eq emptyRow_def)
  have height: "length (removeCompletedRowsFromGrid grid) = GRID_HEIGHT"
    using le by (simp add: eq)
  have same: "removeCompletedRowsFromGrid grid = grid" if "\<not> hasCompletedRow grid"
  proof -
    from that have "?rest = grid"
      by (simp add: hasCompletedRow_def list_ex_iff)
    then show ?thesis using len by (simp add: eq)
  qed
  from eq height same show ?thesis by blast
qed

theorem removeCompletedRowsFromGrid_spec_witness:
  "length exampleGrid = GRID_HEIGHT
   \<and> removeCompletedRowsFromGrid exampleGrid =
       replicate 19 (replicate 10 emptyCell) @
       [[Filled Brick_L, emptyCell, emptyCell, emptyCell, emptyCell,
         emptyCell, emptyCell, emptyCell, emptyCell, emptyCell]]
   \<and> length (removeCompletedRowsFromGrid exampleGrid) = GRID_HEIGHT"
proof -
  have len: "length exampleGrid = GRID_HEIGHT"
    by code_simp
  have rows: "replicate (GRID_HEIGHT - length (filter (\<lambda>row. \<not> isCompleteRow row) exampleGrid))
         (replicate GRID_WIDTH emptyCell)
       @ filter (\<lambda>row. \<not> isCompleteRow row) exampleGrid =
     replicate 19 (replicate 10 emptyCell) @
       [[Filled Brick_L, emptyCell, emptyCell, emptyCell, emptyCell,
         emptyCell, emptyCell, emptyCell, emptyCell, emptyCell]]"
    by code_simp
  note spec = removeCompletedRowsFromGrid_spec [OF len]
  from spec have a: "removeCompletedRowsFromGrid exampleGrid =
      replicate (GRID_HEIGHT - length (filter (\<lambda>row. \<not> isCompleteRow row) exampleGrid))
         (replicate GRID_WIDTH emptyCell)
       @ filter (\<lambda>row. \<not> isCompleteRow row) exampleGrid"
    by (rule conjunct1)
  from spec have b: "length (removeCompletedRowsFromGrid exampleGrid) = GRID_HEIGHT"
    by blast
  from len trans [OF a rows] b show ?thesis
    by blast
qed


text \<open>
  Claim C10. On a grid of 20 rows of 10 cells, \<open>isEmptyCell\<close> is true at every row
  index outside 0..19, whatever the column, and false at a row inside 0..19 and a
  column outside 0..9. So \<open>collision\<close> reports nothing for a shape whose set bits all
  lie above or below the board, and reports a hit when a set bit lies beside the board
  in one of its rows.
\<close>

theorem isEmptyCell_boundary:
  assumes height: "length grid = GRID_HEIGHT"
    and width: "list_all (\<lambda>row. length row = GRID_WIDTH) grid"
  shows "(y < 0 \<or> int GRID_HEIGHT \<le> y \<longrightarrow> (\<forall>xj. isEmptyCell grid xj (Fin y)))
     \<and> (0 \<le> y \<and> y < int GRID_HEIGHT \<and> (x < 0 \<or> int GRID_WIDTH \<le> x)
          \<longrightarrow> \<not> isEmptyCell grid (Fin x) (Fin y))
     \<and> ((\<forall>cy<shapeSize shp. \<forall>cx<shapeSize shp. bitAt shp cy cx \<noteq> 0
            \<longrightarrow> y0 + int cy < 0 \<or> int GRID_HEIGHT \<le> y0 + int cy)
          \<longrightarrow> \<not> collision grid shp (Fin x0) (Fin y0))
     \<and> ((\<exists>cy<shapeSize shp. \<exists>cx<shapeSize shp. bitAt shp cy cx \<noteq> 0
            \<and> 0 \<le> y0 + int cy \<and> y0 + int cy < int GRID_HEIGHT
            \<and> (x0 + int cx < 0 \<or> int GRID_WIDTH \<le> x0 + int cx))
          \<longrightarrow> collision grid shp (Fin x0) (Fin y0))"
proof -
  have small: "int (length grid) \<le> two53"
    using height by simp
  have row_len: "length (grid ! nat r) = GRID_WIDTH" if "0 \<le> r" "r < int GRID_HEIGHT" for r
    using width height that by (simp add: list_all_length)
  have outside: "isEmptyCell grid xj (Fin r)" if "r < 0 \<or> int GRID_HEIGHT \<le> r" for xj r
    using that height by (intro isEmptyCell_row_outside) simp
  have beside: "\<not> isEmptyCell grid (Fin c) (Fin r)"
    if "0 \<le> r" "r < int GRID_HEIGHT" "c < 0 \<or> int GRID_WIDTH \<le> c" for c r
    using that height row_len [of r] by (intro isEmptyCell_column_outside) simp_all
  have free: "\<not> collision grid shp (Fin x0) (Fin y0)"
    if out: "\<forall>cy<shapeSize shp. \<forall>cx<shapeSize shp. bitAt shp cy cx \<noteq> 0
            \<longrightarrow> y0 + int cy < 0 \<or> int GRID_HEIGHT \<le> y0 + int cy"
  proof -
    have "isEmptyCell grid (plus_js (Fin x0) (int cx)) (plus_js (Fin y0) (int cy))"
      if "cy < shapeSize shp" "cx < shapeSize shp" "bitAt shp cy cx \<noteq> 0" for cy cx
    proof (rule isEmptyCell_sum_row_outside [OF _ small])
      from out that show "y0 + int cy < 0 \<or> int (length grid) \<le> y0 + int cy"
        using height by auto
    qed
    then show ?thesis
      unfolding collision_iff by blast
  qed
  have hit: "collision grid shp (Fin x0) (Fin y0)"
    if "\<exists>cy<shapeSize shp. \<exists>cx<shapeSize shp. bitAt shp cy cx \<noteq> 0
            \<and> 0 \<le> y0 + int cy \<and> y0 + int cy < int GRID_HEIGHT
            \<and> (x0 + int cx < 0 \<or> int GRID_WIDTH \<le> x0 + int cx)"
  proof -
    from that obtain cy cx where c: "cy < shapeSize shp" "cx < shapeSize shp"
      "bitAt shp cy cx \<noteq> 0" "0 \<le> y0 + int cy" "y0 + int cy < int GRID_HEIGHT"
      "x0 + int cx < 0 \<or> int GRID_WIDTH \<le> x0 + int cx"
      by blast
    have "\<not> isEmptyCell grid (plus_js (Fin x0) (int cx)) (plus_js (Fin y0) (int cy))"
    proof (rule isEmptyCell_sum_column_outside [OF c(4) _ small])
      show "y0 + int cy < int (length grid)"
        using c(5) height by simp
      show "x0 + int cx < 0 \<or> int (length (grid ! nat (y0 + int cy))) \<le> x0 + int cx"
        using c(6) row_len [OF c(4,5)] by simp
      show "int (length (grid ! nat (y0 + int cy))) \<le> two53"
        using row_len [OF c(4,5)] by simp
    qed
    with c(1,2,3) show ?thesis
      unfolding collision_iff by blast
  qed
  from outside beside free hit show ?thesis
    by blast
qed

theorem isEmptyCell_boundary_witness:
  "isEmptyCell exampleGrid (Fin 3) (Fin 20)
   \<and> isEmptyCell exampleGrid (Fin 12) (Fin (- 1))
   \<and> \<not> isEmptyCell exampleGrid (Fin 10) (Fin 5)
   \<and> \<not> isEmptyCell exampleGrid (Fin (- 1)) (Fin 5)
   \<and> \<not> collision exampleGrid (brickTypeToShapeMap Brick_O) (Fin 4) (Fin 20)
   \<and> collision exampleGrid (brickTypeToShapeMap Brick_O) (Fin 9) (Fin 0)"
proof -
  have height: "length exampleGrid = GRID_HEIGHT"
    by code_simp
  have width: "list_all (\<lambda>row. length row = GRID_WIDTH) exampleGrid"
    by code_simp
  note b = isEmptyCell_boundary [OF height width]
  have 1: "isEmptyCell exampleGrid (Fin 3) (Fin 20)"
    using b [of 20] by simp
  have 2: "isEmptyCell exampleGrid (Fin 12) (Fin (- 1))"
    using b [of "- 1"] by simp
  have 3: "\<not> isEmptyCell exampleGrid (Fin 10) (Fin 5)"
    using b [of 5 10] by simp
  have 4: "\<not> isEmptyCell exampleGrid (Fin (- 1)) (Fin 5)"
    using b [of 5 "- 1"] by simp
  have 5: "\<not> collision exampleGrid (brickTypeToShapeMap Brick_O) (Fin 4) (Fin 20)"
    using b [of _ _ "brickTypeToShapeMap Brick_O" 20 4] by (simp add: shapeSize_def)
  have "\<exists>cy<shapeSize (brickTypeToShapeMap Brick_O). \<exists>cx<shapeSize (brickTypeToShapeMap Brick_O).
          bitAt (brickTypeToShapeMap Brick_O) cy cx \<noteq> 0
          \<and> 0 \<le> 0 + int cy \<and> 0 + int cy < int GRID_HEIGHT
          \<and> (9 + int cx < 0 \<or> int GRID_WIDTH \<le> 9 + int cx)"
    by (intro exI [of _ 1] conjI) (simp_all add: shapeSize_def bitAt_def)
  then have 6: "collision exampleGrid (brickTypeToShapeMap Brick_O) (Fin 9) (Fin 0)"
    using b [of _ _ "brickTypeToShapeMap Brick_O" 0 9] by blast
  from 1 2 3 4 5 6 show ?thesis
    by blast
qed


section \<open>The row animation\<close>

lemma clearingState_reached:
  "runActions (initialState (always Brick_L)) clearActions = Some (Inr (clearingState 0))"
  by code_simp

lemma not_complete_iff: "\<not> isCompleteRow row \<longleftrightarrow> emptyCell \<in> set row"
  by (auto simp: isCompleteRow_def list_all_iff)

lemma removeCompletedRowsFromGrid_rows:
  "removeCompletedRowsFromGrid grid =
     replicate (GRID_HEIGHT - length (filter (\<lambda>row. emptyCell \<in> set row) grid))
       (replicate GRID_WIDTH emptyCell)
     @ filter (\<lambda>row. emptyCell \<in> set row) grid"
  by (simp add: removeCompletedRowsFromGrid_eq not_complete_iff emptyRow_def)

lemma removeCompletedRowsFromGrid_all_open:
  "list_all (\<lambda>row. emptyCell \<in> set row) (removeCompletedRowsFromGrid grid)"
  by (auto simp: removeCompletedRowsFromGrid_rows list_all_iff)

text \<open>
  Claim C5 as stated fails in the game \<open>clearActions\<close>. Six clock ticks after the tick
  that started the animation the counter has reached the budget, 6; in that
  transition, from 5 to 6, the counter is not set to absent and the complete row stays.
  The seventh tick clears the counter and removes the row.
\<close>

theorem animation_budget_counterexample:
  "runActions (initialState (always Brick_L)) clearActions = Some (Inr (clearingState 0))
   \<and> runActions (clearingState 0) (replicate 5 (TICK_CLOCK, always Brick_L))
       = Some (Inr (clearingState 5))
   \<and> tickClock (clearingState 5) (always Brick_L) = Inr (clearingState 6)
   \<and> completedRowAnimationFrame (clearingState 6) = Some (Fin ROW_ANIMATION_FRAMES)
   \<and> bricks (clearingState 6) = bricks (clearingState 5)
   \<and> hasCompletedRow (bricks (clearingState 6))
   \<and> tickClock (clearingState 6) (always Brick_L) = Inr clearedState"
proof -
  have 2: "runActions (clearingState 0) (replicate 5 (TICK_CLOCK, always Brick_L))
       = Some (Inr (clearingState 5))"
    by code_simp
  have 3: "tickClock (clearingState 5) (always Brick_L) = Inr (clearingState 6)"
    by code_simp
  have 4: "completedRowAnimationFrame (clearingState 6) = Some (Fin ROW_ANIMATION_FRAMES)"
    by (simp add: clearingState_def)
  have 5: "bricks (clearingState 6) = bricks (clearingState 5)"
    by (simp add: clearingState_def)
  have 6: "hasCompletedRow (bricks (clearingState 6))"
    by code_simp
  have 7: "tickClock (clearingState 6) (always Brick_L) = Inr clearedState"
    by code_simp
  from clearingState_reached 2 3 4 5 6 7 show ?thesis
    by blast
qed

text \<open>
  Claim C5, amended. In an \<open>IN_PROGRESS\<close> state whose \<open>completedRowAnimationFrame\<close> is
  present, \<open>TICK_CLOCK\<close> adds 1 to the counter and changes nothing else, as long as the
  counter it finds is not 6; the sum is that of JavaScript numbers, exact for an integer
  counter up to \<open>2^53\<close>. The tick that finds the counter at 6, one tick after the
  counter reached 6, sets the counter to absent and replaces the grid in the same step:
  the rows with an empty cell, in their order, under as many fresh rows of 10 empty
  cells as make 20 rows. No tick out of the animation returns a state with the counter
  absent and a complete row left.
\<close>

theorem tickClock_row_animation:
  assumes progress: "phase state = IN_PROGRESS"
    and frame: "completedRowAnimationFrame state = Some c"
  shows "(c \<noteq> Fin ROW_ANIMATION_FRAMES \<longrightarrow>
            tickClock state rnd = Inr (state\<lparr>completedRowAnimationFrame := Some (plus_js c 1)\<rparr>))
     \<and> (\<forall>f. c = Fin f \<and> f \<noteq> ROW_ANIMATION_FRAMES \<and> \<bar>f + 1\<bar> \<le> two53 \<longrightarrow>
            tickClock state rnd = Inr (state\<lparr>completedRowAnimationFrame := Some (Fin (f + 1))\<rparr>))
     \<and> (c = Fin ROW_ANIMATION_FRAMES \<longrightarrow>
            tickClock state rnd =
              Inr (state\<lparr>completedRowAnimationFrame := None,
                         bricks :=
                           replicate (GRID_HEIGHT
                               - length (filter (\<lambda>row. emptyCell \<in> set row) (bricks state)))
                             (replicate GRID_WIDTH emptyCell)
                           @ filter (\<lambda>row. emptyCell \<in> set row) (bricks state)\<rparr>))
     \<and> (\<forall>state'. tickClock state rnd = Inr state' \<and> completedRowAnimationFrame state' = None
            \<longrightarrow> c = Fin ROW_ANIMATION_FRAMES
                \<and> list_all (\<lambda>row. emptyCell \<in> set row) (bricks state'))"
proof -
  have animating: "isRowAnimating state"
    using frame by (simp add: isRowAnimating_def)
  have advance: "tickClock state rnd =
      Inr (state\<lparr>completedRowAnimationFrame := Some (plus_js c 1)\<rparr>)"
    if "c \<noteq> Fin ROW_ANIMATION_FRAMES"
    using that progress frame animating
    by (simp add: tickClock_def tickCompletedRowAnimation_def nextFrame_def isRowAnimating_def)
  have exact: "tickClock state rnd = Inr (state\<lparr>completedRowAnimationFrame := Some (Fin (f + 1))\<rparr>)"
    if "c = Fin f \<and> f \<noteq> ROW_ANIMATION_FRAMES \<and> \<bar>f + 1\<bar> \<le> two53" for f
    using that advance by (simp add: nearest_double_exact)
  have finish: "tickClock state rnd =
      Inr (state\<lparr>completedRowAnimationFrame := None,
                 bricks :=
                   replicate (GRID_HEIGHT
                       - length (filter (\<lambda>row. emptyCell \<in> set row) (bricks state)))
                     (replicate GRID_WIDTH emptyCell)
                   @ filter (\<lambda>row. emptyCell \<in> set row) (bricks state)\<rparr>)"
    if "c = Fin ROW_ANIMATION_FRAMES"
    using that progress frame animating
    by (simp add: tickClock_def tickCompletedRowAnimation_def nextFrame_def isRowAnimating_def
        removeCompletedRows_def removeCompletedRowsFromGrid_rows)
  have ended: "c = Fin ROW_ANIMATION_FRAMES
      \<and> list_all (\<lambda>row. emptyCell \<in> set row) (bricks state')"
    if "tickClock state rnd = Inr state' \<and> completedRowAnimationFrame state' = None" for state'
  proof (cases "c = Fin ROW_ANIMATION_FRAMES")
    case True
    with finish that have "bricks state' = removeCompletedRowsFromGrid (bricks state)"
      by (auto simp: removeCompletedRowsFromGrid_rows)
    with True show ?thesis
      by (simp add: removeCompletedRowsFromGrid_all_open)
  next
    case False
    with advance that show ?thesis
      by auto
  qed
  from advance exact finish ended show ?thesis
    by blast
qed

theorem tickClock_row_animation_witness:
  "phase (clearingState 2) = IN_PROGRESS
   \<and> completedRowAnimationFrame (clearingState 2) = Some (Fin 2)
   \<and> tickClock (clearingState 2) (always Brick_L) = Inr (clearingState 3)
   \<and> completedRowAnimationFrame (clearingState 6) = Some (Fin ROW_ANIMATION_FRAMES)
   \<and> tickClock (clearingState 6) (always Brick_L) = Inr clearedState
   \<and> completedRowAnimationFrame clearedState = None
   \<and> list_all (\<lambda>row. emptyCell \<in> set row) (bricks clearedState)"
proof -
  have p: "phase (clearingState f) = IN_PROGRESS" for f
    by (simp add: clearingState_def)
  have c: "completedRowAnimationFrame (clearingState f) = Some (Fin f)" for f
    by (simp add: clearingState_def)
  have 1: "tickClock (clearingState 2) (always Brick_L) = Inr (clearingState 3)"
  proof -
    have "Fin 2 = Fin 2 \<and> (2::int) \<noteq> ROW_ANIMATION_FRAMES \<and> \<bar>(2::int) + 1\<bar> \<le> two53"
      by simp
    from tickClock_row_animation [OF p c, of 2 "always Brick_L", THEN conjunct2, THEN conjunct1,
        THEN spec, THEN mp, OF this]
    show ?thesis
      by (simp add: clearingState_def)
  qed
  have rows: "(clearingState 6)\<lparr>completedRowAnimationFrame := None,
      bricks := replicate (GRID_HEIGHT
            - length (filter (\<lambda>row. emptyCell \<in> set row) (bricks (clearingState 6))))
          (replicate GRID_WIDTH emptyCell)
        @ filter (\<lambda>row. emptyCell \<in> set row) (bricks (clearingState 6))\<rparr> = clearedState"
    by code_simp
  have 2: "tickClock (clearingState 6) (always Brick_L) = Inr clearedState"
    using tickClock_row_animation [OF p c, of 6 "always Brick_L", THEN conjunct2, THEN conjunct2,
        THEN conjunct1]
    unfolding rows by (rule mp) (rule refl)
  have n: "completedRowAnimationFrame clearedState = None"
    by (simp add: clearedState_def)
  from 2 n have "tickClock (clearingState 6) (always Brick_L) = Inr clearedState
      \<and> completedRowAnimationFrame clearedState = None"
    by simp
  from tickClock_row_animation [OF p c, of 6 "always Brick_L", THEN conjunct2, THEN conjunct2,
      THEN conjunct2, THEN spec, THEN mp, OF this]
  have 3: "list_all (\<lambda>row. emptyCell \<in> set row) (bricks clearedState)"
    by simp
  from p c [of 2] 1 c [of 6] 2 n 3 show ?thesis
    by simp
qed


section \<open>The queue\<close>

text \<open>
  Claim C9. The queue has 4 entries in the initial state, in every state the game can
  emit, and after every action of the reducer that starts from 4 entries.
  \<open>dequeueNextBrick\<close> on a queue of 4 makes its front the type of the new falling brick,
  which is unspawned and in the orientation \<open>SPAWN\<close>, and appends the drawn type behind
  the other three, in their order. A clock tick does this exactly when it locks the
  landed brick in; otherwise it leaves the queue and the type of the falling brick as
  they are.
\<close>

theorem queue_length_and_dequeue:
  "queue (initialState rnd0) = [rnd0 1, rnd0 2, rnd0 3, rnd0 4]
   \<and> length (queue (initialState rnd0)) = QUEUE_SIZE
   \<and> (reachable state \<longrightarrow> length (queue state) = QUEUE_SIZE)
   \<and> (length (queue state) = QUEUE_SIZE \<and> handleActions state action rnd = Some (Inr state')
        \<longrightarrow> length (queue state') = QUEUE_SIZE)
   \<and> (queue state = [q0, q1, q2, q3]
        \<longrightarrow> dequeueNextBrick state r =
              Inr (state\<lparr>queue := [q1, q2, q3, r],
                         fallingBrick := \<lparr>fb_type = q0, fb_x = NegInf, fb_y = NegInf,
                                          fb_orientation = SPAWN\<rparr>\<rparr>))
   \<and> (queue state = [q0, q1, q2, q3] \<and> tickClock state rnd = Inr state''
        \<longrightarrow> (if locksIn state
             then queue state'' = [q1, q2, q3, rnd 0]
                  \<and> fallingBrick state'' =
                      \<lparr>fb_type = q0, fb_x = NegInf, fb_y = NegInf, fb_orientation = SPAWN\<rparr>
             else queue state'' = [q0, q1, q2, q3]
                  \<and> fb_type (fallingBrick state'') = fb_type (fallingBrick state)))"
proof -
  have initial: "queue (initialState rnd0) = [rnd0 1, rnd0 2, rnd0 3, rnd0 4]"
    by (simp add: initialState_queue)
  then have initial_length: "length (queue (initialState rnd0)) = QUEUE_SIZE"
    by simp
  have dequeue: "dequeueNextBrick state r =
      Inr (state\<lparr>queue := [q1, q2, q3, r],
                 fallingBrick := \<lparr>fb_type = q0, fb_x = NegInf, fb_y = NegInf,
                                  fb_orientation = SPAWN\<rparr>\<rparr>)"
    if "queue state = [q0, q1, q2, q3]"
    using that by (simp add: dequeueNextBrick_def newFallingBrick_def)
  have tick: "if locksIn state
      then queue state'' = [q1, q2, q3, rnd 0]
           \<and> fallingBrick state'' =
               \<lparr>fb_type = q0, fb_x = NegInf, fb_y = NegInf, fb_orientation = SPAWN\<rparr>
      else queue state'' = [q0, q1, q2, q3]
           \<and> fb_type (fallingBrick state'') = fb_type (fallingBrick state)"
    if "queue state = [q0, q1, q2, q3]" "tickClock state rnd = Inr state''"
    using tickClock_cases [OF that(2)] tickClock_no_lock_type [OF that(2)] that(1)
    by (auto simp: newFallingBrick_def)
  from initial initial_length dequeue tick show ?thesis
    using reachable_queue_length handleActions_queue_length by blast
qed

theorem queue_length_and_dequeue_witness:
  "reachable (initialState (always Brick_T))
   \<and> length (queue (initialState (always Brick_T))) = QUEUE_SIZE
   \<and> dequeueNextBrick landedState Brick_T =
       Inr (landedState\<lparr>queue := [Brick_Z, Brick_J, Brick_I, Brick_T],
                        fallingBrick := \<lparr>fb_type = Brick_S, fb_x = NegInf, fb_y = NegInf,
                                         fb_orientation = SPAWN\<rparr>\<rparr>)
   \<and> locksIn landedState
   \<and> (case tickClock landedState (always Brick_T) of
         Inl e \<Rightarrow> False
       | Inr state'' \<Rightarrow> queue state'' = [Brick_Z, Brick_J, Brick_I, Brick_T]
                        \<and> fb_type (fallingBrick state'') = Brick_S
                        \<and> isUnspawned (fallingBrick state''))"
proof -
  note q = queue_length_and_dequeue
    [of "always Brick_T" "initialState (always Brick_T)" _ _ _ Brick_S Brick_Z Brick_J Brick_I]
  note l = queue_length_and_dequeue
    [of _ landedState _ "always Brick_T" _ Brick_S Brick_Z Brick_J Brick_I Brick_T]
  have r: "reachable (initialState (always Brick_T))"
    by (rule reachable_initial)
  with q have 1: "length (queue (initialState (always Brick_T))) = QUEUE_SIZE"
    by blast
  have qs: "queue landedState = [Brick_S, Brick_Z, Brick_J, Brick_I]"
    by (simp add: landedState_def)
  with l have 2: "dequeueNextBrick landedState Brick_T =
       Inr (landedState\<lparr>queue := [Brick_Z, Brick_J, Brick_I, Brick_T],
                        fallingBrick := \<lparr>fb_type = Brick_S, fb_x = NegInf, fb_y = NegInf,
                                         fb_orientation = SPAWN\<rparr>\<rparr>)"
    by blast
  have 3: "locksIn landedState"
    by code_simp
  have "case tickClock landedState (always Brick_T) of Inl e \<Rightarrow> False | Inr state'' \<Rightarrow> True"
    by code_simp
  then obtain state'' where t: "tickClock landedState (always Brick_T) = Inr state''"
    by (auto split: sum.splits)
  with l qs 3 have "queue state'' = [Brick_Z, Brick_J, Brick_I, always Brick_T 0]
      \<and> fallingBrick state'' =
          \<lparr>fb_type = Brick_S, fb_x = NegInf, fb_y = NegInf, fb_orientation = SPAWN\<rparr>"
    by (metis (full_types))
  then have "queue state'' = [Brick_Z, Brick_J, Brick_I, Brick_T]
      \<and> fb_type (fallingBrick state'') = Brick_S \<and> isUnspawned (fallingBrick state'')"
    by (simp add: always_def isUnspawned_def)
  then have 4: "case tickClock landedState (always Brick_T) of
         Inl e \<Rightarrow> False
       | Inr state'' \<Rightarrow> queue state'' = [Brick_Z, Brick_J, Brick_I, Brick_T]
                        \<and> fb_type (fallingBrick state'') = Brick_S
                        \<and> isUnspawned (fallingBrick state'')"
    unfolding t by simp
  from r 1 2 3 4 show ?thesis
    by blast
qed


section \<open>The game-over test of the falling brick\<close>

lemma shape_lyingBrick: "shape lyingBrick = [[0, 0, 0, 0], [1, 1, 1, 1], [0, 0, 0, 0], [0, 0, 0, 0]]"
  by code_simp

lemma sideState_reached:
  "runActions (initialState (always Brick_L)) sideActions = Some (Inr sideState)"
  by code_simp

lemma not_isEmptyCell_iff:
  "\<not> isEmptyCell grid xj yj \<longleftrightarrow>
     (\<exists>row. index_js grid yj = Some row \<and> index_js row xj \<noteq> Some emptyCell)"
  by (cases "index_js grid yj") (simp_all add: isEmptyCell_def)

lemma grid_read_iff:
  "(\<exists>row. index_js grid (Fin r) = Some row \<and> index_js row (Fin c) \<noteq> Some emptyCell)
   \<longleftrightarrow> 0 \<le> r \<and> r < int (length grid)
       \<and> \<not> (0 \<le> c \<and> c < int (length (grid ! nat r)) \<and> grid ! nat r ! nat c = emptyCell)"
  by auto

text \<open>
  Claim C4 as stated fails for the brick that lies in row 0 on top of the tower:
  \<open>gameOver\<close> is true, yet at its position the brick overlaps nothing, and no cell of
  it is above row 0. It fails too in the state that the game \<open>sideActions\<close> reaches:
  \<open>gameOver\<close> is true on a board without a settled cell, for the brick reaches across
  the left wall.
\<close>

theorem gameOver_unshifted_counterexample:
  "FallingBrick_gameOver lyingBrick towerGrid
   \<and> \<not> collision towerGrid (shape lyingBrick) (fb_x lyingBrick) (fb_y lyingBrick)
   \<and> \<not> list_ex (\<lambda>cy. list_ex (\<lambda>cx. bitAt (shape lyingBrick) cy cx \<noteq> 0
                       \<and> less_js (plus_js (fb_y lyingBrick) (int cy)) 0)
                     [0..<shapeSize (shape lyingBrick)])
            [0..<shapeSize (shape lyingBrick)]
   \<and> runActions (initialState (always Brick_L)) sideActions = Some (Inr sideState)
   \<and> FallingBrick_gameOver (fallingBrick sideState) (bricks sideState)
   \<and> list_all (list_all (\<lambda>c. c = emptyCell)) (bricks sideState)"
proof -
  have 1: "FallingBrick_gameOver lyingBrick towerGrid
   \<and> \<not> collision towerGrid (shape lyingBrick) (fb_x lyingBrick) (fb_y lyingBrick)
   \<and> \<not> list_ex (\<lambda>cy. list_ex (\<lambda>cx. bitAt (shape lyingBrick) cy cx \<noteq> 0
                       \<and> less_js (plus_js (fb_y lyingBrick) (int cy)) 0)
                     [0..<shapeSize (shape lyingBrick)])
            [0..<shapeSize (shape lyingBrick)]"
    by code_simp
  have 2: "FallingBrick_gameOver (fallingBrick sideState) (bricks sideState)"
    by code_simp
  have 3: "list_all (list_all (\<lambda>c. c = emptyCell)) (bricks sideState)"
    by code_simp
  from 1 sideState_reached 2 3 show ?thesis
    by blast
qed

text \<open>
  Claim C4, amended. For every falling brick and grid, \<open>gameOver(grid)\<close> is true if and
  only if \<open>y\<close>, the top row of the bounding box, is negative and some set bit of the
  shape, taken one row below the brick's position, lies in a row of the grid and not on
  an empty cell of it: the read of its column there gives a brick type or, beside the
  board, nothing. For a brick at integers \<open>x\<close> and \<open>y\<close> (far inside \<open>2^53\<close>, where the
  sums are exact) the bit at row \<open>cy\<close>, column \<open>cx\<close> is taken at row \<open>y + 1 + cy\<close>,
  column \<open>x + cx\<close>.
\<close>

theorem gameOver_shifted:
  "(FallingBrick_gameOver fb grid \<longleftrightarrow>
      less_js (fb_y fb) 0
      \<and> (\<exists>cy<shapeSize (shape fb). \<exists>cx<shapeSize (shape fb). bitAt (shape fb) cy cx \<noteq> 0
            \<and> (\<exists>row. index_js grid (plus_js (plus_js (fb_y fb) 1) (int cy)) = Some row
                  \<and> index_js row (plus_js (fb_x fb) (int cx)) \<noteq> Some emptyCell)))
   \<and> (fb_x fb = Fin x \<and> fb_y fb = Fin y
        \<and> \<bar>x\<bar> + int (shapeSize (shape fb)) \<le> two53
        \<and> \<bar>y\<bar> + int (shapeSize (shape fb)) + 1 \<le> two53
      \<longrightarrow> (FallingBrick_gameOver fb grid \<longleftrightarrow>
            y < 0
            \<and> (\<exists>cy<shapeSize (shape fb). \<exists>cx<shapeSize (shape fb). bitAt (shape fb) cy cx \<noteq> 0
                  \<and> 0 \<le> y + 1 + int cy \<and> y + 1 + int cy < int (length grid)
                  \<and> \<not> (0 \<le> x + int cx
                        \<and> x + int cx < int (length (grid ! nat (y + 1 + int cy)))
                        \<and> grid ! nat (y + 1 + int cy) ! nat (x + int cx) = emptyCell))))"
proof -
  have general: "FallingBrick_gameOver fb grid \<longleftrightarrow>
      less_js (fb_y fb) 0
      \<and> (\<exists>cy<shapeSize (shape fb). \<exists>cx<shapeSize (shape fb). bitAt (shape fb) cy cx \<noteq> 0
            \<and> (\<exists>row. index_js grid (plus_js (plus_js (fb_y fb) 1) (int cy)) = Some row
                  \<and> index_js row (plus_js (fb_x fb) (int cx)) \<noteq> Some emptyCell))"
    unfolding FallingBrick_gameOver_def isOnTopOfBricks_def collision_iff not_isEmptyCell_iff
    by blast
  have integers: "FallingBrick_gameOver fb grid \<longleftrightarrow>
      y < 0
      \<and> (\<exists>cy<shapeSize (shape fb). \<exists>cx<shapeSize (shape fb). bitAt (shape fb) cy cx \<noteq> 0
            \<and> 0 \<le> y + 1 + int cy \<and> y + 1 + int cy < int (length grid)
            \<and> \<not> (0 \<le> x + int cx
                  \<and> x + int cx < int (length (grid ! nat (y + 1 + int cy)))
                  \<and> grid ! nat (y + 1 + int cy) ! nat (x + int cx) = emptyCell))"
    if h: "fb_x fb = Fin x \<and> fb_y fb = Fin y
        \<and> \<bar>x\<bar> + int (shapeSize (shape fb)) \<le> two53
        \<and> \<bar>y\<bar> + int (shapeSize (shape fb)) + 1 \<le> two53"
  proof -
    have row: "plus_js (plus_js (fb_y fb) 1) (int cy) = Fin (y + 1 + int cy)"
      if "cy < shapeSize (shape fb)" for cy
    proof -
      from h have "plus_js (Fin y) 1 = Fin (y + 1)"
        by (intro plus_js_exact) arith
      moreover from h that have "plus_js (Fin (y + 1)) (int cy) = Fin (y + 1 + int cy)"
        by (intro plus_js_exact) arith
      ultimately show ?thesis using h by simp
    qed
    have col: "plus_js (fb_x fb) (int cx) = Fin (x + int cx)"
      if "cx < shapeSize (shape fb)" for cx
    proof -
      from h that have "plus_js (Fin x) (int cx) = Fin (x + int cx)"
        by (intro plus_js_exact) arith
      with h show ?thesis by simp
    qed
    have cell: "(\<exists>row. index_js grid (plus_js (plus_js (fb_y fb) 1) (int cy)) = Some row
          \<and> index_js row (plus_js (fb_x fb) (int cx)) \<noteq> Some emptyCell)
        \<longleftrightarrow> 0 \<le> y + 1 + int cy \<and> y + 1 + int cy < int (length grid)
            \<and> \<not> (0 \<le> x + int cx
                  \<and> x + int cx < int (length (grid ! nat (y + 1 + int cy)))
                  \<and> grid ! nat (y + 1 + int cy) ! nat (x + int cx) = emptyCell)"
      if "cy < shapeSize (shape fb)" "cx < shapeSize (shape fb)" for cy cx
      unfolding row [OF that(1)] col [OF that(2)] by (rule grid_read_iff)
    from h have "less_js (fb_y fb) 0 \<longleftrightarrow> y < 0"
      by simp
    with cell show ?thesis
      unfolding general by blast
  qed
  from general integers show ?thesis
    by blast
qed

theorem gameOver_shifted_witness:
  "fb_x (fallingBrick sideState) = Fin (- 1) \<and> fb_y (fallingBrick sideState) = Fin (- 2)
   \<and> FallingBrick_gameOver (fallingBrick sideState) (bricks sideState)
   \<and> fb_x lyingBrick = Fin 3 \<and> fb_y lyingBrick = Fin (- 1)
   \<and> FallingBrick_gameOver lyingBrick towerGrid
   \<and> towerGrid ! 1 ! 3 = Filled Brick_I"
proof -
  have sx: "fb_x (fallingBrick sideState) = Fin (- 1)"
    and sy: "fb_y (fallingBrick sideState) = Fin (- 2)"
    by (simp_all add: sideState_def)
  have s_size: "shapeSize (shape (fallingBrick sideState)) = 4"
    by code_simp
  have s_bit: "bitAt (shape (fallingBrick sideState)) 1 0 \<noteq> 0"
    by code_simp
  have s_row: "0 \<le> - 2 + 1 + int 1" "- 2 + 1 + int 1 < int (length (bricks sideState))"
    by code_simp+
  have s_col: "\<not> (0 \<le> - 1 + int 0
      \<and> - 1 + int 0 < int (length (bricks sideState ! nat (- 2 + 1 + int 1)))
      \<and> bricks sideState ! nat (- 2 + 1 + int 1) ! nat (- 1 + int 0) = emptyCell)"
    by code_simp
  have "(1::nat) < shapeSize (shape (fallingBrick sideState))"
    "(0::nat) < shapeSize (shape (fallingBrick sideState))"
    by (simp_all add: s_size)
  with s_bit s_row s_col
  have s_hit: "\<exists>cy<shapeSize (shape (fallingBrick sideState)).
      \<exists>cx<shapeSize (shape (fallingBrick sideState)).
        bitAt (shape (fallingBrick sideState)) cy cx \<noteq> 0
        \<and> 0 \<le> - 2 + 1 + int cy \<and> - 2 + 1 + int cy < int (length (bricks sideState))
        \<and> \<not> (0 \<le> - 1 + int cx
              \<and> - 1 + int cx < int (length (bricks sideState ! nat (- 2 + 1 + int cy)))
              \<and> bricks sideState ! nat (- 2 + 1 + int cy) ! nat (- 1 + int cx) = emptyCell)"
    by blast
  have s_range: "\<bar>- 1\<bar> + int (shapeSize (shape (fallingBrick sideState))) \<le> two53"
    "\<bar>- 2\<bar> + int (shapeSize (shape (fallingBrick sideState))) + 1 \<le> two53"
    by (simp_all add: s_size)
  have 1: "FallingBrick_gameOver (fallingBrick sideState) (bricks sideState)"
    using gameOver_shifted [of "fallingBrick sideState" "bricks sideState" "- 1" "- 2",
        THEN conjunct2] sx sy s_range s_hit
    by simp
  have lx: "fb_x lyingBrick = Fin 3" and ly: "fb_y lyingBrick = Fin (- 1)"
    by (simp_all add: lyingBrick_def)
  have l_size: "shapeSize (shape lyingBrick) = 4"
    by code_simp
  have l_bit: "bitAt (shape lyingBrick) 1 0 \<noteq> 0"
    by code_simp
  have cell: "towerGrid ! 1 ! 3 = Filled Brick_I"
    by code_simp
  have l_row: "0 \<le> - 1 + 1 + int 1" "- 1 + 1 + int 1 < int (length towerGrid)"
    by code_simp+
  have l_col: "\<not> (0 \<le> 3 + int 0
      \<and> 3 + int 0 < int (length (towerGrid ! nat (- 1 + 1 + int 1)))
      \<and> towerGrid ! nat (- 1 + 1 + int 1) ! nat (3 + int 0) = emptyCell)"
    by code_simp
  have "(1::nat) < shapeSize (shape lyingBrick)" "(0::nat) < shapeSize (shape lyingBrick)"
    by (simp_all add: l_size)
  with l_bit l_row l_col
  have l_hit: "\<exists>cy<shapeSize (shape lyingBrick). \<exists>cx<shapeSize (shape lyingBrick).
        bitAt (shape lyingBrick) cy cx \<noteq> 0
        \<and> 0 \<le> - 1 + 1 + int cy \<and> - 1 + 1 + int cy < int (length towerGrid)
        \<and> \<not> (0 \<le> 3 + int cx
              \<and> 3 + int cx < int (length (towerGrid ! nat (- 1 + 1 + int cy)))
              \<and> towerGrid ! nat (- 1 + 1 + int cy) ! nat (3 + int cx) = emptyCell)"
    by blast
  have l_range: "\<bar>3\<bar> + int (shapeSize (shape lyingBrick)) \<le> two53"
    "\<bar>- 1\<bar> + int (shapeSize (shape lyingBrick)) + 1 \<le> two53"
    by (simp_all add: l_size)
  have 2: "FallingBrick_gameOver lyingBrick towerGrid"
    using gameOver_shifted [of lyingBrick towerGrid 3 "- 1", THEN conjunct2]
      lx ly l_range l_hit
    by simp
  from sx sy 1 lx ly 2 cell show ?thesis
    by blast
qed


section \<open>The hard drop, called twice\<close>





section \<open>The action DOWN\<close>

text \<open>
  Claim C7 as stated fails at two states in progress. Right after \<open>START_GAME\<close> the
  brick is unspawned: \<open>DOWN\<close> returns the state as it is, and \<open>canFall\<close> holds of
  its brick. In the state that the game \<open>stuckActions\<close> reaches the brick is below the
  floor, and \<open>DOWN\<close> does not return.
\<close>

theorem DOWN_counterexample:
  "phase startedState = IN_PROGRESS
   \<and> handleActions startedState DOWN (always Brick_L) = Some (Inr startedState)
   \<and> canFall (fallingBrick startedState) (bricks startedState)
   \<and> runActions (initialState (always Brick_L)) stuckActions = Some (Inr stuckState)
   \<and> phase stuckState = IN_PROGRESS
   \<and> handleActions stuckState DOWN (always Brick_L) = None"
proof -
  have 1: "phase startedState = IN_PROGRESS"
    by (simp add: startedState_def)
  have 2: "handleActions startedState DOWN (always Brick_L) = Some (Inr startedState)"
    by (simp add: handleActions_def fastFall_def isUnspawned_def startedState_def
        initialState_def newFallingBrick_def)
  have 3: "canFall (fallingBrick startedState) (bricks startedState)"
    by code_simp
  have 5: "phase stuckState = IN_PROGRESS"
    by (simp add: stuckState_def)
  have 6: "handleActions stuckState DOWN (always Brick_L) = None"
    by (simp add: handleActions_def stuckState_no_return)
  from 1 2 3 stuckState_reached 5 6 show ?thesis
    by blast
qed

text \<open>
  Claim C7, amended. In every state, whatever its phase: whenever \<open>DOWN\<close> returns,
  the state it returns differs from its input in the \<open>y\<close> of the falling brick only;
  grid, score, queue, phase and \<open>completedRowAnimationFrame\<close> are those of the input.
  The new \<open>y\<close> is the old one after \<open>n\<close> executions of \<open>y++\<close>, each at a position
  where \<open>canFall\<close> holds; an unspawned brick is left as it is (\<open>n = 0\<close>), a spawned
  one ends where \<open>canFall\<close> is false. \<open>DOWN\<close> never throws. It returns the state as
  it is when the brick is unspawned. When the brick is spawned, its \<open>y\<close> an integer
  not below \<open>-2^53\<close>, and a row \<open>r\<close> of its shape that is not empty is at or above the
  last row of the board, \<open>DOWN\<close> returns, with the brick at \<open>y + n\<close>, the first
  position from \<open>y\<close> on where \<open>canFall\<close> is false; there row \<open>r\<close> is still at or
  above the last row of the board.
\<close>

theorem DOWN_hard_drop:
  "(\<forall>state'. handleActions state DOWN rnd = Some (Inr state') \<longrightarrow>
      (\<exists>n. state' = state\<lparr>fallingBrick :=
                (fallingBrick state)\<lparr>fb_y := fallBy n (fb_y (fallingBrick state))\<rparr>\<rparr>
         \<and> (\<forall>k<n. canFall ((fallingBrick state)\<lparr>fb_y := fallBy k (fb_y (fallingBrick state))\<rparr>)
                     (bricks state))
         \<and> (if isUnspawned (fallingBrick state) then n = 0
             else \<not> canFall (fallingBrick state') (bricks state')))
      \<and> bricks state' = bricks state \<and> score state' = score state
      \<and> queue state' = queue state \<and> phase state' = phase state
      \<and> completedRowAnimationFrame state' = completedRowAnimationFrame state)
   \<and> (\<forall>e. handleActions state DOWN rnd \<noteq> Some (Inl e))
   \<and> (isUnspawned (fallingBrick state) \<longrightarrow> handleActions state DOWN rnd = Some (Inr state))
   \<and> (\<forall>y r. \<not> isUnspawned (fallingBrick state)
          \<and> fb_y (fallingBrick state) = Fin y \<and> - two53 \<le> y
          \<and> r < shapeSize (shape (fallingBrick state))
          \<and> \<not> isEmptyBitGridRow (shape (fallingBrick state)) r
          \<and> y + int r < int GRID_HEIGHT
      \<longrightarrow> (\<exists>n. handleActions state DOWN rnd =
                 Some (Inr (state\<lparr>fallingBrick := (fallingBrick state)\<lparr>fb_y := Fin (y + int n)\<rparr>\<rparr>))
             \<and> y + int n + int r < int GRID_HEIGHT
             \<and> \<not> canFall ((fallingBrick state)\<lparr>fb_y := Fin (y + int n)\<rparr>) (bricks state)
             \<and> (\<forall>k<n. canFall ((fallingBrick state)\<lparr>fb_y := Fin (y + int k)\<rparr>) (bricks state))))"
proof (intro conjI allI impI)
  fix state'
  assume "handleActions state DOWN rnd = Some (Inr state')"
  then obtain fb' where fb': "fastFall (fallingBrick state) (bricks state) = Some fb'"
    and state': "state' = state\<lparr>fallingBrick := fb'\<rparr>"
    by (auto simp: handleActions_def split: option.splits)
  from fastFall_result [OF fb'] state'
  show "\<exists>n. state' = state\<lparr>fallingBrick :=
                (fallingBrick state)\<lparr>fb_y := fallBy n (fb_y (fallingBrick state))\<rparr>\<rparr>
         \<and> (\<forall>k<n. canFall ((fallingBrick state)\<lparr>fb_y := fallBy k (fb_y (fallingBrick state))\<rparr>)
                     (bricks state))
         \<and> (if isUnspawned (fallingBrick state) then n = 0
             else \<not> canFall (fallingBrick state') (bricks state'))"
    by auto
  from state' show "bricks state' = bricks state" "score state' = score state"
    "queue state' = queue state" "phase state' = phase state"
    "completedRowAnimationFrame state' = completedRowAnimationFrame state"
    by simp_all
next
  fix e
  show "handleActions state DOWN rnd \<noteq> Some (Inl e)"
    by (simp add: handleActions_def split: option.splits)
next
  assume "isUnspawned (fallingBrick state)"
  then show "handleActions state DOWN rnd = Some (Inr state)"
    by (simp add: handleActions_def fastFall_def)
next
  fix y r
  assume a: "\<not> isUnspawned (fallingBrick state)
          \<and> fb_y (fallingBrick state) = Fin y \<and> - two53 \<le> y
          \<and> r < shapeSize (shape (fallingBrick state))
          \<and> \<not> isEmptyBitGridRow (shape (fallingBrick state)) r
          \<and> y + int r < int GRID_HEIGHT"
  then have "\<exists>n. fastFall (fallingBrick state) (bricks state)
        = Some ((fallingBrick state)\<lparr>fb_y := Fin (y + int n)\<rparr>)
       \<and> y + int n + int r < int GRID_HEIGHT
       \<and> \<not> canFall ((fallingBrick state)\<lparr>fb_y := Fin (y + int n)\<rparr>) (bricks state)
       \<and> (\<forall>k<n. canFall ((fallingBrick state)\<lparr>fb_y := Fin (y + int k)\<rparr>) (bricks state))"
    by (intro fastFall_lands) simp_all
  then obtain n where n: "fastFall (fallingBrick state) (bricks state)
        = Some ((fallingBrick state)\<lparr>fb_y := Fin (y + int n)\<rparr>)"
    "y + int n + int r < int GRID_HEIGHT"
    "\<not> canFall ((fallingBrick state)\<lparr>fb_y := Fin (y + int n)\<rparr>) (bricks state)"
    "\<forall>k<n. canFall ((fallingBrick state)\<lparr>fb_y := Fin (y + int k)\<rparr>) (bricks state)"
    by blast
  from n(1) have "handleActions state DOWN rnd =
      Some (Inr (state\<lparr>fallingBrick := (fallingBrick state)\<lparr>fb_y := Fin (y + int n)\<rparr>\<rparr>))"
    by (simp add: handleActions_def)
  with n(2-4)
  show "\<exists>n. handleActions state DOWN rnd =
                 Some (Inr (state\<lparr>fallingBrick := (fallingBrick state)\<lparr>fb_y := Fin (y + int n)\<rparr>\<rparr>))
             \<and> y + int n + int r < int GRID_HEIGHT
             \<and> \<not> canFall ((fallingBrick state)\<lparr>fb_y := Fin (y + int n)\<rparr>) (bricks state)
             \<and> (\<forall>k<n. canFall ((fallingBrick state)\<lparr>fb_y := Fin (y + int k)\<rparr>) (bricks state))"
    by blast
qed

theorem DOWN_hard_drop_witness:
  "\<not> isUnspawned (fallingBrick droppingState)
   \<and> fb_y (fallingBrick droppingState) = Fin 0
   \<and> \<not> isEmptyBitGridRow (shape (fallingBrick droppingState)) 0
   \<and> handleActions droppingState DOWN (always Brick_T) =
       Some (Inr (droppingState\<lparr>fallingBrick := droppingBrick\<lparr>fb_y := Fin 15\<rparr>\<rparr>))
   \<and> \<not> canFall (droppingBrick\<lparr>fb_y := Fin 15\<rparr>) exampleGrid
   \<and> bricks (droppingState\<lparr>fallingBrick := droppingBrick\<lparr>fb_y := Fin 15\<rparr>\<rparr>) = exampleGrid
   \<and> isUnspawned (fallingBrick startedState)
   \<and> handleActions startedState DOWN (always Brick_T) = Some (Inr startedState)"
proof -
  note d = DOWN_hard_drop [of droppingState "always Brick_T"]
  have sp: "\<not> isUnspawned (fallingBrick droppingState)"
    by (simp add: isUnspawned_def droppingState_def droppingBrick_def)
  have y: "fb_y (fallingBrick droppingState) = Fin 0"
    by (simp add: droppingState_def droppingBrick_def)
  have r: "0 < shapeSize (shape (fallingBrick droppingState))"
    by code_simp
  have row: "\<not> isEmptyBitGridRow (shape (fallingBrick droppingState)) 0"
    by code_simp
  from sp y r row have "\<not> isUnspawned (fallingBrick droppingState)
          \<and> fb_y (fallingBrick droppingState) = Fin 0 \<and> - two53 \<le> 0
          \<and> 0 < shapeSize (shape (fallingBrick droppingState))
          \<and> \<not> isEmptyBitGridRow (shape (fallingBrick droppingState)) 0
          \<and> 0 + int 0 < int GRID_HEIGHT"
    by simp
  from d [THEN conjunct2, THEN conjunct2, THEN conjunct2, THEN spec, THEN spec, THEN mp, OF this]
  obtain n where ret: "handleActions droppingState DOWN (always Brick_T) =
       Some (Inr (droppingState\<lparr>fallingBrick := (fallingBrick droppingState)\<lparr>fb_y := Fin (0 + int n)\<rparr>\<rparr>))"
    and stop: "\<not> canFall ((fallingBrick droppingState)\<lparr>fb_y := Fin (0 + int n)\<rparr>) (bricks droppingState)"
    by blast
  have val: "handleActions droppingState DOWN (always Brick_T) =
       Some (Inr (droppingState\<lparr>fallingBrick := droppingBrick\<lparr>fb_y := Fin 15\<rparr>\<rparr>))"
    by code_simp
  have fbs: "fallingBrick droppingState = droppingBrick" and g: "bricks droppingState = exampleGrid"
    by (simp_all add: droppingState_def)
  from ret val have "droppingBrick\<lparr>fb_y := Fin (0 + int n)\<rparr> = droppingBrick\<lparr>fb_y := Fin 15\<rparr>"
    by (simp add: droppingState_def)
  then have "Fin (0 + int n) = Fin 15"
    by (simp add: droppingBrick_def)
  with stop have 4: "\<not> canFall (droppingBrick\<lparr>fb_y := Fin 15\<rparr>) exampleGrid"
    by (simp add: fbs g)
  from d [THEN conjunct1, THEN spec, THEN mp, OF val]
  have 5: "bricks (droppingState\<lparr>fallingBrick := droppingBrick\<lparr>fb_y := Fin 15\<rparr>\<rparr>) = exampleGrid"
    using g by simp
  have u: "isUnspawned (fallingBrick startedState)"
    by (simp add: isUnspawned_def startedState_def initialState_def newFallingBrick_def)
  from DOWN_hard_drop [of startedState "always Brick_T"] u
  have 7: "handleActions startedState DOWN (always Brick_T) = Some (Inr startedState)"
    by blast
  from sp y row val 4 5 u 7 show ?thesis
    by blast
qed


section \<open>Key actions outside a game in progress\<close>

text \<open>
  Claim C2 as stated fails in the state that the game \<open>overActions\<close> ends in: the phase
  is \<open>OVER\<close>, and \<open>LEFT\<close> moves the falling brick from column 4 to column 3.
\<close>

theorem key_action_in_OVER_counterexample:
  "runActions (initialState (always Brick_L)) overActions = Some (Inr overState)
   \<and> phase overState = OVER
   \<and> fb_x (fallingBrick overState) = Fin 4
   \<and> handleActions overState Action_LEFT (always Brick_O) =
       Some (Inr (overState\<lparr>fallingBrick := (fallingBrick overState)\<lparr>fb_x := Fin 3\<rparr>\<rparr>))"
proof -
  have 2: "phase overState = OVER" and 3: "fb_x (fallingBrick overState) = Fin 4"
    by (simp_all add: overState_def)
  have 4: "handleActions overState Action_LEFT (always Brick_O) =
       Some (Inr (overState\<lparr>fallingBrick := (fallingBrick overState)\<lparr>fb_x := Fin 3\<rparr>\<rparr>))"
    by code_simp
  from overState_reached 2 3 4 show ?thesis
    by blast
qed

text \<open>
  Claim C2, amended. The reducer does not look at the phase for the actions \<open>LEFT\<close>,
  \<open>RIGHT\<close>, \<open>UP\<close>, \<open>DOWN\<close>: in a state whose phase is not \<open>IN_PROGRESS\<close>, each of them
  does what it does in the same state with the phase \<open>IN_PROGRESS\<close>, and leaves the
  phase as it is. It never throws, and \<open>LEFT\<close>, \<open>RIGHT\<close> and \<open>UP\<close> always return. The
  state returned has the grid, score, queue, phase and \<open>completedRowAnimationFrame\<close> of
  the input and a falling brick of the same type. When the falling brick is unspawned
  the state is returned as it is; this is so in every \<open>UNSTARTED\<close> state that the game
  can emit.
\<close>

theorem key_actions_outside_IN_PROGRESS:
  assumes "phase state \<noteq> IN_PROGRESS"
    and "action \<in> {Action_LEFT, Action_RIGHT, UP, DOWN}"
  shows "handleActions state action rnd =
           map_option (map_sum id (\<lambda>s. s\<lparr>phase := phase state\<rparr>))
             (handleActions (state\<lparr>phase := IN_PROGRESS\<rparr>) action rnd)
     \<and> (\<forall>e. handleActions state action rnd \<noteq> Some (Inl e))
     \<and> (action \<noteq> DOWN \<longrightarrow> (\<exists>state'. handleActions state action rnd = Some (Inr state')))
     \<and> (\<forall>state'. handleActions state action rnd = Some (Inr state') \<longrightarrow>
            bricks state' = bricks state \<and> score state' = score state
            \<and> queue state' = queue state \<and> phase state' = phase state
            \<and> completedRowAnimationFrame state' = completedRowAnimationFrame state
            \<and> fb_type (fallingBrick state') = fb_type (fallingBrick state))
     \<and> (isUnspawned (fallingBrick state) \<longrightarrow> handleActions state action rnd = Some (Inr state))
     \<and> (reachable state \<and> phase state = UNSTARTED
          \<longrightarrow> handleActions state action rnd = Some (Inr state))"
proof -
  from assms(2) have key: "action \<in> {DOWN, Action_LEFT, Action_RIGHT, UP}"
    by auto
  have same: "handleActions state action rnd =
           map_option (map_sum id (\<lambda>s. s\<lparr>phase := phase state\<rparr>))
             (handleActions (state\<lparr>phase := IN_PROGRESS\<rparr>) action rnd)"
    using key by (auto simp: handleActions_def split: option.splits)
  have no_throw: "handleActions state action rnd \<noteq> Some (Inl e)" for e
    using key by (auto simp: handleActions_def split: option.splits)
  have returns: "\<exists>state'. handleActions state action rnd = Some (Inr state')"
    if "action \<noteq> DOWN"
    using key that by (auto simp: handleActions_def)
  have frame: "bricks state' = bricks state \<and> score state' = score state
      \<and> queue state' = queue state \<and> phase state' = phase state
      \<and> completedRowAnimationFrame state' = completedRowAnimationFrame state
      \<and> fb_type (fallingBrick state') = fb_type (fallingBrick state)"
    if "handleActions state action rnd = Some (Inr state')" for state'
    using key_action_frame [OF key that] key_action_type [OF key that] by auto
  have unspawned: "handleActions state action rnd = Some (Inr state)"
    if "isUnspawned (fallingBrick state)"
    using key that by (rule key_action_unspawned)
  have unstarted: "handleActions state action rnd = Some (Inr state)"
    if "reachable state \<and> phase state = UNSTARTED"
    using that unspawned reachable_UNSTARTED by blast
  from same no_throw returns frame unspawned unstarted show ?thesis
    by blast
qed

theorem key_actions_outside_IN_PROGRESS_witness:
  "phase (initialState (always Brick_L)) \<noteq> IN_PROGRESS
   \<and> reachable (initialState (always Brick_L))
   \<and> isUnspawned (fallingBrick (initialState (always Brick_L)))
   \<and> handleActions (initialState (always Brick_L)) UP (always Brick_L) =
       Some (Inr (initialState (always Brick_L)))
   \<and> phase overState \<noteq> IN_PROGRESS
   \<and> handleActions (overState\<lparr>phase := IN_PROGRESS\<rparr>) Action_LEFT (always Brick_O) =
       Some (Inr (overState\<lparr>phase := IN_PROGRESS,
                    fallingBrick := (fallingBrick overState)\<lparr>fb_x := Fin 3\<rparr>\<rparr>))
   \<and> handleActions overState Action_LEFT (always Brick_O) =
       Some (Inr (overState\<lparr>fallingBrick := (fallingBrick overState)\<lparr>fb_x := Fin 3\<rparr>\<rparr>))"
proof -
  have p: "phase (initialState (always Brick_L)) \<noteq> IN_PROGRESS"
    by (simp add: initialState_def)
  have u: "phase (initialState (always Brick_L)) = UNSTARTED"
    by (simp add: initialState_def)
  have r: "reachable (initialState (always Brick_L))"
    by (rule reachable_initial)
  have un: "isUnspawned (fallingBrick (initialState (always Brick_L)))"
    by (simp add: isUnspawned_def initialState_def newFallingBrick_def)
  have a: "UP \<in> {Action_LEFT, Action_RIGHT, UP, DOWN}"
    by simp
  from key_actions_outside_IN_PROGRESS [OF p a, of "always Brick_L"] r u
  have 3: "handleActions (initialState (always Brick_L)) UP (always Brick_L) =
       Some (Inr (initialState (always Brick_L)))"
    by blast
  have q: "phase overState \<noteq> IN_PROGRESS"
    by (simp add: overState_def)
  have b: "Action_LEFT \<in> {Action_LEFT, Action_RIGHT, UP, DOWN}"
    by simp
  have l: "handleActions (overState\<lparr>phase := IN_PROGRESS\<rparr>) Action_LEFT (always Brick_O) =
       Some (Inr (overState\<lparr>phase := IN_PROGRESS,
                    fallingBrick := (fallingBrick overState)\<lparr>fb_x := Fin 3\<rparr>\<rparr>))"
    by code_simp
  have o: "phase overState = OVER"
    by (simp add: overState_def)
  from key_actions_outside_IN_PROGRESS [OF q b, of "always Brick_O", THEN conjunct1]
  have "handleActions overState Action_LEFT (always Brick_O) =
       Some (Inr (overState\<lparr>phase := IN_PROGRESS,
                    fallingBrick := (fallingBrick overState)\<lparr>fb_x := Fin 3\<rparr>,
                    phase := OVER\<rparr>))"
    unfolding l o by simp
  moreover have "overState\<lparr>phase := IN_PROGRESS,
                    fallingBrick := (fallingBrick overState)\<lparr>fb_x := Fin 3\<rparr>,
                    phase := OVER\<rparr>
      = overState\<lparr>fallingBrick := (fallingBrick overState)\<lparr>fb_x := Fin 3\<rparr>\<rparr>"
    by (simp add: overState_def)
  ultimately have 7: "handleActions overState Action_LEFT (always Brick_O) =
       Some (Inr (overState\<lparr>fallingBrick := (fallingBrick overState)\<lparr>fb_x := Fin 3\<rparr>\<rparr>))"
    by simp
  from p r un 3 q l 7 show ?thesis
    by blast
qed


section \<open>The rotation of the falling brick\<close>

text \<open>
  What \<open>rotate\<close> does with the shape it tests: the first pair of the list at which that
  shape is free is applied, and the brick stays as it is when there is none.
\<close>

lemma tryWallKicks_find:
  "tryWallKicks fb grid nextOrientation nextShape pairs =
     (case find (\<lambda>(dx, dy). \<not> collision grid nextShape (plus_js (fb_x fb) dx) (plus_js (fb_y fb) dy))
             pairs of
        None \<Rightarrow> fb
      | Some (dx, dy) \<Rightarrow>
          fb\<lparr>fb_orientation := nextOrientation,
             fb_x := plus_js (fb_x fb) dx,
             fb_y := plus_js (fb_y fb) dy\<rparr>)"
  by (induction pairs) auto

lemma wall_kick_lists_length:
  "length (jlstzOrientationToWallKickMap orientation) = 5
   \<and> length (iOrientationToWallKickMap orientation) = 5"
  by (cases orientation) simp_all

text \<open>
  The shape it tests, for the \<open>L\<close> brick: the canonical shape turned to the next
  orientation from \<open>SPAWN\<close> only.
\<close>

lemma rotate_tested_shape_L:
  "map (\<lambda>orientation. rotateShape (rotateShape (brickTypeToShapeMap Brick_L) orientation)
          (incrementOrientation orientation)) [SPAWN, RIGHT, TWO, LEFT] =
   map (rotateShape (brickTypeToShapeMap Brick_L)) [RIGHT, LEFT, RIGHT, LEFT]"
  by code_simp

text \<open>
  Claim C1, evaluated where the program departs from it. The claim has \<open>rotate\<close> test
  the wall kicks with the canonical shape turned to the next orientation. The program
  turns \<open>this.shape()\<close>, which is the canonical shape already turned to the current
  orientation, so from \<open>LEFT\<close> it tests the \<open>LEFT\<close> shape again. For the \<open>L\<close> brick at
  the right wall (the state the game \<open>wallActions\<close> reaches) the shape of the next
  orientation, \<open>SPAWN\<close>, collides with the wall at the first offset \<open>(0, 0)\<close> and is
  free at the second, \<open>(-1, 0)\<close>; \<open>rotate\<close> applies the first offset, and the brick
  reaches into column 10.
\<close>

theorem rotate_tests_turned_shape:
  "runActions (initialState (always Brick_L)) wallActions = Some (Inr wallState)
   \<and> fallingBrick wallState =
       \<lparr>fb_type = Brick_L, fb_x = Fin 8, fb_y = Fin 17, fb_orientation = LEFT\<rparr>
   \<and> rotate_brick (fallingBrick wallState) (bricks wallState) =
       \<lparr>fb_type = Brick_L, fb_x = Fin 8, fb_y = Fin 17, fb_orientation = SPAWN\<rparr>
   \<and> rotateShape (brickTypeToShapeMap Brick_L) (incrementOrientation LEFT) =
       [[1, 0, 0], [1, 1, 1], [0, 0, 0]]
   \<and> collision (bricks wallState)
       (rotateShape (brickTypeToShapeMap Brick_L) (incrementOrientation LEFT)) (Fin 8) (Fin 17)
   \<and> \<not> collision (bricks wallState)
       (rotateShape (brickTypeToShapeMap Brick_L) (incrementOrientation LEFT)) (Fin 7) (Fin 17)
   \<and> rotateShape (shape (fallingBrick wallState)) (incrementOrientation LEFT) =
       [[0, 1, 0], [0, 1, 0], [1, 1, 0]]"
proof -
  have 2: "fallingBrick wallState =
       \<lparr>fb_type = Brick_L, fb_x = Fin 8, fb_y = Fin 17, fb_orientation = LEFT\<rparr>"
    by (simp add: wallState_def)
  have 3: "rotate_brick (fallingBrick wallState) (bricks wallState) =
       \<lparr>fb_type = Brick_L, fb_x = Fin 8, fb_y = Fin 17, fb_orientation = SPAWN\<rparr>"
    by code_simp
  have 4: "rotateShape (brickTypeToShapeMap Brick_L) (incrementOrientation LEFT) =
       [[1, 0, 0], [1, 1, 1], [0, 0, 0]]"
    by code_simp
  have 5: "collision (bricks wallState)
       (rotateShape (brickTypeToShapeMap Brick_L) (incrementOrientation LEFT)) (Fin 8) (Fin 17)"
    by code_simp
  have 6: "\<not> collision (bricks wallState)
       (rotateShape (brickTypeToShapeMap Brick_L) (incrementOrientation LEFT)) (Fin 7) (Fin 17)"
    by code_simp
  have 7: "rotateShape (shape (fallingBrick wallState)) (incrementOrientation LEFT) =
       [[0, 1, 0], [0, 1, 0], [1, 1, 0]]"
    by code_simp
  from wallState_reached 2 3 4 5 6 7 show ?thesis
    by blast
qed


section \<open>The lock-in of a landed brick\<close>

text \<open>
  Claim C3, evaluated where the program departs from it. In the state that the game
  \<open>overlapActions\<close> reaches, the last rotation has put the \<open>L\<close> brick onto the settled
  \<open>I\<close> in column 5. The next clock tick locks the brick in, and the bit of the shape
  at row 1, column 2 stamps \<open>L\<close> into the cell of row 18, column 5, which held
  \<open>I\<close>.
\<close>

theorem lock_in_overwrites:
  "runActions (initialState (always Brick_L)) overlapActions = Some (Inr overlapState)
   \<and> locksIn overlapState
   \<and> fallingBrick overlapState =
       \<lparr>fb_type = Brick_L, fb_x = Fin 3, fb_y = Fin 17, fb_orientation = SPAWN\<rparr>
   \<and> bitAt (shape (fallingBrick overlapState)) 1 2 \<noteq> 0
   \<and> \<not> isEmptyCell (bricks overlapState) (Fin (3 + 2)) (Fin (17 + 1))
   \<and> bricks overlapState ! 18 ! 5 = Filled Brick_I
   \<and> (case tickClock overlapState (always Brick_L) of
         Inl e \<Rightarrow> False
       | Inr state' \<Rightarrow>
           bricks state' ! 18 ! 5 = Filled Brick_L)"
proof -
  have 2: "locksIn overlapState"
    by code_simp
  have 3: "fallingBrick overlapState =
       \<lparr>fb_type = Brick_L, fb_x = Fin 3, fb_y = Fin 17, fb_orientation = SPAWN\<rparr>"
    by (simp add: overlapState_def)
  have 4: "bitAt (shape (fallingBrick overlapState)) 1 2 \<noteq> 0"
    by code_simp
  have 5: "\<not> isEmptyCell (bricks overlapState) (Fin (3 + 2)) (Fin (17 + 1))
      \<and> bricks overlapState ! 18 ! 5 = Filled Brick_I"
    by code_simp
  have 6: "case tickClock overlapState (always Brick_L) of
         Inl e \<Rightarrow> False
       | Inr state' \<Rightarrow>
           bricks state' ! 18 ! 5 = Filled Brick_L"
    by code_simp
  from overlapState_reached 2 3 4 5 6 show ?thesis
    by blast
qed

end
